theory Spec2Isabelle
  imports Complex_Main "HOL-Library.Word"
begin

section \<open>Chunk splitter (client)\<close>

text \<open>
  The client cuts a file into fixed-size byte ranges (\<^verbatim>\<open>FileSystemContext.tsx\<close>,
  \<^verbatim>\<open>uploadFile\<close>/\<open>uploadFiles\<close> for the chunk count, \<^verbatim>\<open>processUploadChunk\<close> for the
  byte range of one chunk). A file's content is a list of bytes and \<^verbatim>\<open>file.size\<close> is its
  length.
\<close>

type_synonym byte = "8 word"

text \<open>\<^verbatim>\<open>const CHUNK_SIZE = 10 * 1024 * 1024\<close>\<close>

definition CHUNK_SIZE :: nat where
  "CHUNK_SIZE = 10 * 1024 * 1024"

text \<open>
  \<^verbatim>\<open>Blob.slice(start, end)\<close> for non-negative arguments: both ends are clamped to the size
  of the blob and the span is empty when the end does not exceed the start.
\<close>

definition slice :: "'a list \<Rightarrow> nat \<Rightarrow> nat \<Rightarrow> 'a list" where
  "slice xs start end =
     (let relStart = min start (length xs);
          relEnd = min end (length xs)
      in take (relEnd - relStart) (drop relStart xs))"

text \<open>
  \<^verbatim>\<open>Math.ceil(file.size / CHUNK_SIZE)\<close>, with the chunk size as a parameter. The division
  is the real quotient; for sizes below \<open>2^53\<close> the floating-point quotient has the same
  ceiling.
\<close>

definition totalChunksOf :: "nat \<Rightarrow> nat \<Rightarrow> nat" where
  "totalChunksOf fileSize chunkSize = nat \<lceil>real fileSize / real chunkSize\<rceil>"

text \<open>
  \<^verbatim>\<open>start = chunkIndex * CHUNK_SIZE; end = Math.min(start + CHUNK_SIZE, file.size);
  chunk = file.slice(start, end)\<close>
\<close>

definition chunkAt :: "nat \<Rightarrow> 'a list \<Rightarrow> nat \<Rightarrow> 'a list" where
  "chunkAt chunkSize file chunkIndex =
     (let start = chunkIndex * chunkSize;
          end = min (start + chunkSize) (length file)
      in slice file start end)"

text \<open>The chunks of a file in ordinal order, one per index below the chunk count.\<close>

definition splitFile :: "nat \<Rightarrow> 'a list \<Rightarrow> 'a list list" where
  "splitFile chunkSize file =
     map (chunkAt chunkSize file) [0 ..< totalChunksOf (length file) chunkSize]"

section \<open>JavaScript values of a request body\<close>

text \<open>
  A field of a JSON request body as the server handlers see it. A field that the body
  omits is \<open>JUndefined\<close>. \<open>JNum n\<close> is the integer literal \<open>n\<close> of the body (byte counts
  and chunk counts are integers); arrays, objects and fractions do not occur in the
  requests of this client. A string is the list of its UTF-8 bytes.
\<close>

datatype jsval = JUndefined | JNull | JBool bool | JNum int | JStr string

text \<open>The truthiness that \<^verbatim>\<open>!x\<close> tests.\<close>

fun truthy :: "jsval \<Rightarrow> bool" where
  "truthy JUndefined = False"
| "truthy JNull = False"
| "truthy (JBool b) = b"
| "truthy (JNum n) = (n \<noteq> 0)"
| "truthy (JStr s) = (s \<noteq> [])"

text \<open>
  A header or body field that the handlers only use as a string: absent, or a string.
  \<^verbatim>\<open>!x\<close> holds for the absent field and for the empty string.
\<close>

definition present :: "string option \<Rightarrow> bool" where
  "present x = (case x of None \<Rightarrow> False | Some s \<Rightarrow> s \<noteq> [])"

subsection \<open>Numbers\<close>

text \<open>
  A JavaScript Number is a binary64 value. \<open>toDouble n\<close> is the Number nearest to the
  non-negative integer \<open>n\<close> (ties to the even mantissa), as the mantissa \<open>m\<close> and the
  exponent \<open>e\<close> of its value \<open>m * 2 ^ e\<close>. An integer below \<open>2 ^ 53\<close> is its own Number.
  From exponent 972 on the value is beyond the largest Number and stands for
  \<^verbatim>\<open>Infinity\<close>.
\<close>

fun bitLength :: "nat \<Rightarrow> nat" where
  "bitLength n = (if n = 0 then 0 else Suc (bitLength (n div 2)))"

declare bitLength.simps [simp del]

definition toDouble :: "nat \<Rightarrow> nat \<times> nat" where
  "toDouble n =
     (if n < 2 ^ 53 then (n, 0)
      else
        let e = bitLength n - 53;
            q = n div 2 ^ e;
            r = n mod 2 ^ e;
            up = (2 ^ e < 2 * r \<or> (2 * r = 2 ^ e \<and> odd q));
            m = (if up then q + 1 else q)
        in if m = 2 ^ 53 then (2 ^ 52, e + 1) else (m, e))"

definition isInfinite :: "nat \<times> nat \<Rightarrow> bool" where
  "isInfinite d = (972 \<le> snd d)"

text \<open>
  The integer that a Number compares as. \<^verbatim>\<open>Infinity\<close> exceeds every Number; \<open>2 ^ 1024\<close>
  stands for it.
\<close>

definition toNumber :: "nat \<Rightarrow> nat" where
  "toNumber n = (let d = toDouble n in if isInfinite d then 2 ^ 1024 else fst d * 2 ^ snd d)"

definition safeInteger :: "int \<Rightarrow> bool" where
  "safeInteger n = (\<bar>n\<bar> < 2 ^ 53)"

text \<open>
  The digits that \<^verbatim>\<open>String(x)\<close> prints for a Number \<open>x = m * 2 ^ e\<close> of at least \<open>10 ^ 21\<close>:
  the decimal with the fewest significant digits among those that read back as \<open>x\<close>,
  and the one nearest to \<open>x\<close> among these. A decimal reads back as \<open>x\<close> when it lies within
  half a gap of \<open>x\<close> (the gap below a power of two is half the gap above it), the bounds
  included when the mantissa is even. \<open>shortestDecimal j m e x\<close> looks for a multiple of
  \<open>10 ^ j\<close> first, then of the lower powers.
\<close>

definition readsBack :: "nat \<Rightarrow> nat \<Rightarrow> nat \<Rightarrow> nat \<Rightarrow> bool" where
  "readsBack m e x c =
     (let gapBelow = (if m = 2 ^ 52 then 2 ^ (e - 1) else 2 ^ e);
          gapAbove = 2 ^ e
      in if even m then 2 * x \<le> 2 * c + gapBelow \<and> 2 * c \<le> 2 * x + gapAbove
         else 2 * x < 2 * c + gapBelow \<and> 2 * c < 2 * x + gapAbove)"

fun shortestDecimal :: "nat \<Rightarrow> nat \<Rightarrow> nat \<Rightarrow> nat \<Rightarrow> nat" where
  "shortestDecimal 0 m e x = x"
| "shortestDecimal (Suc j) m e x =
     (let p = 10 ^ Suc j;
          a = x div p;
          below = a * p;
          above = (a + 1) * p;
          okBelow = (0 < a \<and> readsBack m e x below);
          okAbove = readsBack m e x above
      in if okBelow \<and> okAbove
         then (if x - below < above - x then below
               else if above - x < x - below then above
               else if even a then below else above)
         else if okBelow then below
         else if okAbove then above
         else shortestDecimal j m e x)"

fun leadingDigit :: "nat \<Rightarrow> nat" where
  "leadingDigit n = (if n < 10 then n else leadingDigit (n div 10))"

declare leadingDigit.simps [simp del]

text \<open>
  \<^verbatim>\<open>parseInt(number)\<close>: the argument is converted to a string first. A Number below
  \<open>10 ^ 21\<close> prints all its digits and reads as itself. From \<open>10 ^ 21\<close> on it prints in
  exponent notation (\<^verbatim>\<open>1e+21\<close>, \<^verbatim>\<open>1.5e+21\<close>) and \<^verbatim>\<open>parseInt\<close> reads the digit before
  the point only. \<^verbatim>\<open>Infinity\<close> gives \<^verbatim>\<open>NaN\<close>, which is \<open>None\<close>.
\<close>

definition parseIntNumber :: "int \<Rightarrow> int option" where
  "parseIntNumber n =
     (let d = toDouble (nat \<bar>n\<bar>);
          x = fst d * 2 ^ snd d;
          sign = (if n < 0 then - 1 else 1)
      in if isInfinite d then None
         else if x < 10 ^ 21 then Some (sign * int x)
         else Some (sign * int (leadingDigit (shortestDecimal (bitLength x) (fst d) (snd d) x))))"

subsection \<open>Strings\<close>

text \<open>
  The white space and line terminators that \<^verbatim>\<open>parseInt\<close> skips, in UTF-8: the ASCII
  blanks, U+00A0, U+1680, U+2000 to U+200A, U+2028, U+2029, U+202F, U+205F, U+3000 and
  U+FEFF.
\<close>

definition isBlank1 :: "char \<Rightarrow> bool" where
  "isBlank1 a = (a \<in> set [CHR '' '', CHR 0x09, CHR 0x0A, CHR 0x0B, CHR 0x0C, CHR 0x0D])"

definition isBlank2 :: "char \<Rightarrow> char \<Rightarrow> bool" where
  "isBlank2 a b = (a = CHR 0xC2 \<and> b = CHR 0xA0)"

definition isBlank3 :: "char \<Rightarrow> char \<Rightarrow> char \<Rightarrow> bool" where
  "isBlank3 a b c =
     ((a = CHR 0xE1 \<and> b = CHR 0x9A \<and> c = CHR 0x80)
      \<or> (a = CHR 0xE2 \<and> b = CHR 0x80
          \<and> ((0x80 \<le> (of_char c :: nat) \<and> (of_char c :: nat) \<le> 0x8A)
              \<or> c = CHR 0xA8 \<or> c = CHR 0xA9 \<or> c = CHR 0xAF))
      \<or> (a = CHR 0xE2 \<and> b = CHR 0x81 \<and> c = CHR 0x9F)
      \<or> (a = CHR 0xE3 \<and> b = CHR 0x80 \<and> c = CHR 0x80)
      \<or> (a = CHR 0xEF \<and> b = CHR 0xBB \<and> c = CHR 0xBF))"

fun skipWhiteSpace :: "string \<Rightarrow> string" where
  "skipWhiteSpace [] = []"
| "skipWhiteSpace [a] = (if isBlank1 a then [] else [a])"
| "skipWhiteSpace [a, b] =
     (if isBlank1 a then skipWhiteSpace [b] else if isBlank2 a b then [] else [a, b])"
| "skipWhiteSpace (a # b # c # s) =
     (if isBlank1 a then skipWhiteSpace (b # c # s)
      else if isBlank2 a b then skipWhiteSpace (c # s)
      else if isBlank3 a b c then skipWhiteSpace s
      else a # b # c # s)"

text \<open>The value of a character as a digit; 36 for a character that is no digit in any radix.\<close>

definition digitValue :: "char \<Rightarrow> nat" where
  "digitValue c =
     (let n = (of_char c :: nat)
      in if 48 \<le> n \<and> n \<le> 57 then n - 48
         else if 97 \<le> n \<and> n \<le> 122 then n - 87
         else if 65 \<le> n \<and> n \<le> 90 then n - 55
         else 36)"

definition digitsToNat :: "nat \<Rightarrow> string \<Rightarrow> nat" where
  "digitsToNat radix ds = foldl (\<lambda>acc c. acc * radix + digitValue c) 0 ds"

text \<open>
  \<^verbatim>\<open>parseInt(string)\<close> without a radix: leading white space is skipped, a sign is
  read, the prefix \<^verbatim>\<open>0x\<close> selects radix 16, and the longest prefix of digits is read;
  the result is the Number nearest to their value. \<open>None\<close> is \<^verbatim>\<open>NaN\<close> (no digit at all).
\<close>

definition parseIntStr :: "string \<Rightarrow> int option" where
  "parseIntStr s =
     (let t = skipWhiteSpace s;
          neg = (take 1 t = ''-'');
          u = (if take 1 t = ''-'' \<or> take 1 t = ''+'' then drop 1 t else t);
          hex = (take 2 u = ''0x'' \<or> take 2 u = ''0X'');
          radix = (if hex then 16 else 10);
          v = (if hex then drop 2 u else u);
          ds = takeWhile (\<lambda>c. digitValue c < radix) v
      in if ds = [] then None
         else Some ((if neg then - 1 else 1) * int (toNumber (digitsToNat radix ds))))"

text \<open>
  \<^verbatim>\<open>parseInt(value)\<close>: the argument is converted to a string first, so \<^verbatim>\<open>undefined\<close>,
  \<^verbatim>\<open>null\<close> and the booleans give \<^verbatim>\<open>NaN\<close>.
\<close>

fun parseInt :: "jsval \<Rightarrow> int option" where
  "parseInt JUndefined = None"
| "parseInt JNull = None"
| "parseInt (JBool b) = None"
| "parseInt (JNum n) = parseIntNumber n"
| "parseInt (JStr s) = parseIntStr s"

text \<open>\<^verbatim>\<open>parseInt(x) || 0\<close>: \<^verbatim>\<open>NaN\<close> and \<open>0\<close> are falsy.\<close>

definition parseIntOr0 :: "jsval \<Rightarrow> int" where
  "parseIntOr0 v = (case parseInt v of None \<Rightarrow> 0 | Some n \<Rightarrow> n)"

section \<open>Server: catalog, storage and responses\<close>

text \<open>
  The server (\<^verbatim>\<open>src/unnamed/part_002\<close>) keeps the tables \<^verbatim>\<open>users\<close> and \<^verbatim>\<open>files\<close> in
  SQLite and the bytes on disk. A path is the list of its components. The chunks of an
  upload session live in \<^verbatim>\<open>uploads/temp/<uploadId>/part_<i>\<close>: \<open>tempDirs\<close> maps a session
  to its directory, a directory maps an ordinal to the bytes of that chunk. \<open>disk\<close> holds
  every other regular file by path. This separation is right for a session identifier
  that is a plain name; one with a separator or a dot segment would address another
  place of the disk. Storage and database calls succeed in this model; their exceptions
  (disk full, permissions) are not part of it.
\<close>


datatype node_type = FileNode | FolderNode

type_synonym path = "string list"

record file_row =
  f_id :: string
  f_user_id :: string
  f_parent_id :: "string option"
  f_name :: string
  f_type :: node_type
  f_size :: int
  f_path :: "path option"
  f_mime_type :: "string option"
  f_created_at :: int

record server =
  users :: "string \<rightharpoonup> int"
  files :: "file_row list"
  tempDirs :: "string \<rightharpoonup> (nat \<rightharpoonup> byte list)"
  disk :: "path \<rightharpoonup> byte list"

text \<open>The catalog entry that a successful completion returns.\<close>

record file_node =
  n_id :: string
  n_parentId :: "string option"
  n_ownerId :: string
  n_name :: string
  n_size :: int
  n_mimeType :: "string option"
  n_createdAt :: int

text \<open>
  Response bodies: an error message; the figures of a quota rejection (\<^verbatim>\<open>usedSpace\<close>,
  \<^verbatim>\<open>totalSpace\<close>, \<^verbatim>\<open>availableSpace\<close>, \<^verbatim>\<open>fileSize\<close>); the answer of the pre-flight check
  (\<^verbatim>\<open>canUpload\<close>, \<^verbatim>\<open>usedSpace\<close>, \<^verbatim>\<open>totalSpace\<close>, \<^verbatim>\<open>availableSpace\<close>, \<^verbatim>\<open>requestedSize\<close>);
  a catalog entry.
\<close>

datatype resp_body =
    ErrorBody string
  | QuotaExceededBody int int int int
  | QuotaBody bool int int int int
  | FileBody file_node

record http_response =
  status :: nat
  body :: resp_body

definition respond :: "nat \<Rightarrow> resp_body \<Rightarrow> http_response" where
  "respond code b = \<lparr>status = code, body = b\<rparr>"

text \<open>
  \<^verbatim>\<open>SELECT COALESCE(SUM(size), 0) as total FROM files WHERE user_id = ? AND type = "file"\<close>
\<close>

definition currentUsage :: "file_row list \<Rightarrow> string \<Rightarrow> int" where
  "currentUsage rows userId =
     sum_list (map f_size (filter (\<lambda>f. f_user_id f = userId \<and> f_type f = FileNode) rows))"

subsection \<open>\<^verbatim>\<open>POST /api/check-quota\<close>\<close>


subsection \<open>\<^verbatim>\<open>getPhysicalPath\<close>\<close>

text \<open>
  The function follows \<^verbatim>\<open>parent_id\<close> upwards until a folder with a stored path, a missing
  folder or the root, awaiting the database at every level. On a cyclic parent chain it
  never returns. The model counts the levels and gives \<open>None\<close> for a chain that never
  ends: a chain without a cycle visits each row at most once, so one more level than
  there are rows is enough for it.
\<close>

definition rootPath :: "string \<Rightarrow> path" where
  "rootPath userId = [''uploads'', userId]"

fun getPhysicalPath :: "nat \<Rightarrow> file_row list \<Rightarrow> string \<Rightarrow> string option \<Rightarrow> path option" where
  "getPhysicalPath 0 rows userId folderId = None"
| "getPhysicalPath (Suc k) rows userId folderId =
     (if \<not> present folderId \<or> folderId = Some ''root'' then Some (rootPath userId)
      else case find (\<lambda>f. Some (f_id f) = folderId) rows of
             None \<Rightarrow> Some (rootPath userId)
           | Some folder \<Rightarrow>
               (case f_path folder of
                  Some p \<Rightarrow>
                    if p \<noteq> [] then Some p
                    else map_option (\<lambda>parentPath. parentPath @ [f_name folder])
                           (getPhysicalPath k rows userId (f_parent_id folder))
                | None \<Rightarrow>
                    map_option (\<lambda>parentPath. parentPath @ [f_name folder])
                      (getPhysicalPath k rows userId (f_parent_id folder))))"

subsection \<open>\<^verbatim>\<open>POST /api/upload/complete\<close>\<close>

record complete_req =
  h_user_id :: "string option"
  b_uploadId :: "string option"
  b_fileName :: "string option"
  b_parentId :: "string option"
  b_totalChunks :: jsval
  b_mimeType :: "string option"
  b_size :: jsval

text \<open>
  The merge loop \<^verbatim>\<open>for (let i = 0; i < parseInt(totalChunks); i++)\<close>: the first argument
  counts the iterations that remain, \<open>i\<close> is the ordinal, \<open>dir\<close> the session directory and
  \<open>written\<close> what the write stream has received. A chunk that exists is piped into the
  stream and unlinked; a missing chunk closes the stream and throws
  \<^verbatim>\<open>Missing chunk i\<close> (\<open>Inl i\<close>).
\<close>

fun mergeChunks ::
  "nat \<Rightarrow> nat \<Rightarrow> (nat \<rightharpoonup> byte list) \<Rightarrow> byte list \<Rightarrow> (nat + unit) \<times> (nat \<rightharpoonup> byte list) \<times> byte list"
where
  "mergeChunks 0 i dir written = (Inr (), dir, written)"
| "mergeChunks (Suc k) i dir written =
     (case dir i of
        Some chunk \<Rightarrow> mergeChunks k (Suc i) (dir(i := None)) (written @ chunk)
      | None \<Rightarrow> (Inl i, dir, written))"

text \<open>
  The second \<^verbatim>\<open>try\<close> block of the handler: the destination is opened, the chunks are
  merged into it, the session directory is removed, and the row is inserted with the size
  that \<^verbatim>\<open>statSync\<close> reads from the destination. \<open>fileId\<close> is the fresh \<^verbatim>\<open>uuidv4()\<close> and
  \<open>now\<close> the clock reading \<^verbatim>\<open>Date.now()\<close>. An exception ends in the answer 500 of the
  \<^verbatim>\<open>catch\<close>. The result is \<open>None\<close> when \<^verbatim>\<open>getPhysicalPath\<close> does not return: the handler
  then never answers.

  The write stream opens (creates or empties) the destination only once the handler has
  awaited something. With no chunk to merge the handler reaches \<^verbatim>\<open>statSync\<close> before
  that, so it finds what was at the destination before the request, and throws when
  nothing was; the stream leaves the destination empty afterwards. With chunks merged,
  the size read is taken to be that of all the bytes written.
\<close>

definition assembleUpload ::
  "string \<Rightarrow> int \<Rightarrow> string \<Rightarrow> string \<Rightarrow> string \<Rightarrow> complete_req \<Rightarrow> server
     \<Rightarrow> (http_response \<times> server) option"
where
  "assembleUpload fileId now userId uploadId fileName req st =
     (case getPhysicalPath (Suc (length (files st))) (files st) userId (b_parentId req) of
        None \<Rightarrow> None
      | Some targetDir \<Rightarrow>
          Some
            (let targetPath = targetDir @ [fileName];
                 count = nat (parseIntOr0 (b_totalChunks req));
                 dir = (case tempDirs st uploadId of None \<Rightarrow> Map.empty | Some d \<Rightarrow> d)
             in case mergeChunks count 0 dir [] of
                  (Inl i, dir', written) \<Rightarrow>
                    (respond 500 (ErrorBody ''Failed to merge file''),
                     st\<lparr>tempDirs :=
                           (case tempDirs st uploadId of
                              None \<Rightarrow> tempDirs st
                            | Some d \<Rightarrow> (tempDirs st)(uploadId \<mapsto> dir')),
                         disk := (disk st)(targetPath \<mapsto> written)\<rparr>)
                | (Inr u, dir', written) \<Rightarrow>
                    (let found = (if count = 0 then disk st targetPath else Some written);
                         st' = st\<lparr>tempDirs := (tempDirs st)(uploadId := None),
                                  disk := (disk st)(targetPath \<mapsto> written)\<rparr>
                     in case found of
                          None \<Rightarrow> (respond 500 (ErrorBody ''Failed to merge file''), st')
                        | Some bytes \<Rightarrow>
                            (let parentId = b_parentId req;
                                 realParent =
                                   (if parentId = Some ''root'' then None else parentId);
                                 row = \<lparr>f_id = fileId, f_user_id = userId,
                                        f_parent_id = realParent, f_name = fileName,
                                        f_type = FileNode, f_size = int (length bytes),
                                        f_path = Some targetPath,
                                        f_mime_type =
                                          Some (if present (b_mimeType req)
                                                then the (b_mimeType req)
                                                else ''application/octet-stream''),
                                        f_created_at = now\<rparr>;
                                 node = \<lparr>n_id = fileId, n_parentId = realParent,
                                         n_ownerId = userId, n_name = fileName,
                                         n_size = int (length bytes),
                                         n_mimeType = b_mimeType req,
                                         n_createdAt = now\<rparr>
                             in (respond 200 (FileBody node),
                                 st'\<lparr>files := files st @ [row]\<rparr>)))))"

text \<open>
  The handler: the required-field check, the quota block (the first \<^verbatim>\<open>try\<close>), then the
  assembly. The result is the response and the server afterwards, or \<open>None\<close> when the
  handler never answers. The polling timestamp \<^verbatim>\<open>lastFileSystemChange\<close> is left out.
\<close>

definition completeUpload ::
  "string \<Rightarrow> int \<Rightarrow> complete_req \<Rightarrow> server \<Rightarrow> (http_response \<times> server) option"
where
  "completeUpload fileId now req st =
     (if \<not> present (h_user_id req) \<or> \<not> present (b_uploadId req)
         \<or> \<not> present (b_fileName req) \<or> \<not> truthy (b_totalChunks req)
      then Some (respond 400 (ErrorBody ''Missing required fields''), st)
      else
        let userId = the (h_user_id req);
            uploadId = the (b_uploadId req);
            fileName = the (b_fileName req)
        in case users st userId of
             None \<Rightarrow> Some (respond 404 (ErrorBody ''User not found''), st)
           | Some storage_limit \<Rightarrow>
               (let usedSpace = currentUsage (files st) userId;
                    fileSize = parseIntOr0 (b_size req);
                    availableSpace = storage_limit - usedSpace
                in if fileSize > availableSpace
                   then Some (respond 413
                                (QuotaExceededBody usedSpace storage_limit availableSpace fileSize),
                              st\<lparr>tempDirs := (tempDirs st)(uploadId := None)\<rparr>)
                   else assembleUpload fileId now userId uploadId fileName req st))"

text \<open>The status of the answer, when there is one.\<close>

definition answerStatus :: "(http_response \<times> server) option \<Rightarrow> nat option" where
  "answerStatus result = map_option (\<lambda>(r, st). status r) result"

section \<open>Client: the transfer queue\<close>

text \<open>
  The transfer queue of \<^verbatim>\<open>FileSystemContext.tsx\<close>. The React state \<^verbatim>\<open>transfers\<close> is a list
  of items in admission order. \<^verbatim>\<open>transfersRef\<close> is the same list seen from callbacks
  (the component copies the state into it on every render), so the model reads
  \<open>transfers\<close> where the source reads \<^verbatim>\<open>transfersRef.current\<close>. An \<^verbatim>\<open>AbortController\<close> is
  identified by a number; \<open>controllers\<close> counts those created and \<open>aborted\<close> holds
  those on which \<^verbatim>\<open>abort()\<close> was called. The list of catalog entries shown to the user
  is not part of the model.
\<close>

datatype transfer_status = Pending | Processing | Merging | Paused | Completed | Error

datatype transfer_type = Upload | Download

record file_obj =
  file_name :: string
  file_type :: string
  file_bytes :: "byte list"

definition file_size :: "file_obj \<Rightarrow> nat" where
  "file_size f = length (file_bytes f)"

record transfer_item =
  t_id :: string
  t_name :: string
  t_type :: transfer_type
  t_progress :: nat
  t_status :: transfer_status
  t_size :: nat
  t_loaded :: nat
  t_file :: "file_obj option"
  t_uploadId :: "string option"
  t_chunkIndex :: "nat option"
  t_totalChunks :: "nat option"
  t_abortController :: "nat option"
  t_parentId :: "string option"
  t_startTime :: "int option"
  t_speed :: "nat option"

record client =
  user :: "string option"
  currentFolderId :: "string option"
  transfers :: "transfer_item list"
  transferStatusRef :: "string \<rightharpoonup> transfer_status"
  mergingRefs :: "string set"
  controllers :: nat
  aborted :: "nat set"

text \<open>A call that \<^verbatim>\<open>setTimeout\<close> has scheduled: \<^verbatim>\<open>processUploadChunk\<close> after a delay in ms.\<close>

record scheduled =
  s_delay :: real
  s_transferId :: string
  s_chunkIndex :: nat
  s_retryCount :: nat

text \<open>What \<^verbatim>\<open>await fetch(...)\<close> gives: an exception (network error, abort, timeout) or a response.\<close>

datatype fetch_outcome = Failed | Response http_response

definition ok :: "http_response \<Rightarrow> bool" where
  "ok r = (200 \<le> status r \<and> status r \<le> 299)"

text \<open>The \<^verbatim>\<open>fetch\<close> returned and \<^verbatim>\<open>response.ok\<close> holds.\<close>

definition succeeded :: "fetch_outcome \<Rightarrow> bool" where
  "succeeded outcome = (case outcome of Response r \<Rightarrow> ok r | Failed \<Rightarrow> False)"

text \<open>\<^verbatim>\<open>Partial<TransferItem>\<close>, with the fields that the queue updates.\<close>

record transfer_updates =
  u_status :: "transfer_status option"
  u_startTime :: "int option"
  u_progress :: "nat option"
  u_loaded :: "nat option"
  u_chunkIndex :: "nat option"
  u_speed :: "nat option"
  u_size :: "nat option"

definition noUpdates :: transfer_updates where
  "noUpdates = \<lparr>u_status = None, u_startTime = None, u_progress = None, u_loaded = None,
                 u_chunkIndex = None, u_speed = None, u_size = None\<rparr>"

text \<open>\<^verbatim>\<open>{ ...t, ...updates }\<close>\<close>

definition applyUpdates :: "transfer_updates \<Rightarrow> transfer_item \<Rightarrow> transfer_item" where
  "applyUpdates updates t =
     t\<lparr>t_status := (case u_status updates of None \<Rightarrow> t_status t | Some v \<Rightarrow> v),
       t_startTime := (case u_startTime updates of None \<Rightarrow> t_startTime t | Some v \<Rightarrow> Some v),
       t_progress := (case u_progress updates of None \<Rightarrow> t_progress t | Some v \<Rightarrow> v),
       t_loaded := (case u_loaded updates of None \<Rightarrow> t_loaded t | Some v \<Rightarrow> v),
       t_chunkIndex := (case u_chunkIndex updates of None \<Rightarrow> t_chunkIndex t | Some v \<Rightarrow> Some v),
       t_speed := (case u_speed updates of None \<Rightarrow> t_speed t | Some v \<Rightarrow> Some v),
       t_size := (case u_size updates of None \<Rightarrow> t_size t | Some v \<Rightarrow> v)\<rparr>"

definition updateTransfer :: "string \<Rightarrow> transfer_updates \<Rightarrow> client \<Rightarrow> client" where
  "updateTransfer transferId updates st =
     st\<lparr>transferStatusRef :=
          (case u_status updates of
             Some s \<Rightarrow> (transferStatusRef st)(transferId \<mapsto> s)
           | None \<Rightarrow> transferStatusRef st),
        transfers := map (\<lambda>t. if t_id t = transferId then applyUpdates updates t else t)
                       (transfers st)\<rparr>"

definition MAX_CONCURRENT_UPLOADS :: nat where
  "MAX_CONCURRENT_UPLOADS = 5"

definition isActive :: "transfer_item \<Rightarrow> bool" where
  "isActive t = (t_status t = Processing \<or> t_status t = Merging)"

definition activeCount :: "client \<Rightarrow> nat" where
  "activeCount st = length (filter isActive (transfers st))"

text \<open>The uploads among the active transfers.\<close>

definition activeUploads :: "client \<Rightarrow> nat" where
  "activeUploads st = length (filter (\<lambda>t. isActive t \<and> t_type t = Upload) (transfers st))"

text \<open>
  The queue management effect, run after a render in which \<^verbatim>\<open>transfers\<close> changed. \<open>now\<close>
  is \<^verbatim>\<open>Date.now()\<close>. It returns the timer that starts the promoted transfer.
\<close>

definition queueEffect :: "int \<Rightarrow> client \<Rightarrow> client \<times> scheduled option" where
  "queueEffect now st =
     (if activeCount st < MAX_CONCURRENT_UPLOADS
      then case find (\<lambda>t. t_status t = Pending) (transfers st) of
             Some nextTransfer \<Rightarrow>
               (updateTransfer (t_id nextTransfer)
                  (noUpdates\<lparr>u_status := Some Processing, u_startTime := Some now\<rparr>) st,
                Some \<lparr>s_delay = 100, s_transferId = t_id nextTransfer,
                      s_chunkIndex = 0, s_retryCount = 0\<rparr>)
           | None \<Rightarrow> (st, None)
      else (st, None))"

text \<open>\<^verbatim>\<open>a || b\<close> on optional strings.\<close>

definition orElse :: "string option \<Rightarrow> string option \<Rightarrow> string option" where
  "orElse a b = (if present a then a else b)"

text \<open>The multipart form of one chunk and the JSON body of the completion signal.\<close>

record chunk_form =
  cf_chunk :: "byte list"
  cf_uploadId :: "string option"
  cf_chunkIndex :: nat
  cf_totalChunks :: nat
  cf_fileName :: string
  cf_parentId :: "string option"

record complete_body =
  cb_uploadId :: "string option"
  cb_fileName :: string
  cb_parentId :: "string option"
  cb_totalChunks :: nat
  cb_mimeType :: string
  cb_size :: nat

text \<open>
  \<^verbatim>\<open>processUploadChunk\<close> up to its first \<^verbatim>\<open>await\<close>. It returns without a request
  (\<open>Returned\<close>, with the timer it may have set), or it has issued the completion signal
  (\<open>AwaitComplete\<close>), or the upload of a chunk under a new controller (\<open>AwaitChunk\<close>);
  the last two carry the transfer as the closure captured it.
\<close>

datatype puc_result =
    Returned "scheduled option"
  | AwaitComplete transfer_item complete_body
  | AwaitChunk transfer_item chunk_form nat

definition processUploadChunk :: "string \<Rightarrow> nat \<Rightarrow> nat \<Rightarrow> client \<Rightarrow> client \<times> puc_result" where
  "processUploadChunk transferId chunkIndex retryCount st =
     (case find (\<lambda>t. t_id t = transferId) (transfers st) of
        None \<Rightarrow>
          (st, Returned (if retryCount < 5
                         then Some \<lparr>s_delay = 100, s_transferId = transferId,
                                    s_chunkIndex = chunkIndex, s_retryCount = retryCount + 1\<rparr>
                         else None))
      | Some transfer \<Rightarrow>
          (case (t_file transfer, user st) of
             (Some file, Some userId) \<Rightarrow>
               if t_status transfer \<noteq> Processing then (st, Returned None)
               else
                 let totalChunks = (case t_totalChunks transfer of None \<Rightarrow> 0 | Some n \<Rightarrow> n);
                     parentId = orElse (t_parentId transfer)
                                  (orElse (currentFolderId st) (Some ''root''))
                 in if chunkIndex \<ge> totalChunks
                    then
                      if transferStatusRef st transferId = Some Merging
                         \<or> transferStatusRef st transferId = Some Completed
                      then (st, Returned None)
                      else if transferId \<in> mergingRefs st then (st, Returned None)
                      else
                        (updateTransfer transferId
                           (noUpdates\<lparr>u_status := Some Merging, u_progress := Some 100\<rparr>)
                           (st\<lparr>mergingRefs := insert transferId (mergingRefs st)\<rparr>),
                         AwaitComplete transfer
                           \<lparr>cb_uploadId = t_uploadId transfer, cb_fileName = file_name file,
                            cb_parentId = parentId, cb_totalChunks = totalChunks,
                            cb_mimeType = file_type file, cb_size = file_size file\<rparr>)
                    else
                      (st\<lparr>controllers := Suc (controllers st)\<rparr>,
                       AwaitChunk transfer
                         \<lparr>cf_chunk = chunkAt CHUNK_SIZE (file_bytes file) chunkIndex,
                          cf_uploadId = t_uploadId transfer, cf_chunkIndex = chunkIndex,
                          cf_totalChunks = totalChunks, cf_fileName = file_name file,
                          cf_parentId = parentId\<rparr>
                         (controllers st))
           | _ \<Rightarrow> (st, Returned None)))"

text \<open>
  \<^verbatim>\<open>processUploadChunk\<close> after the completion signal has settled: the \<^verbatim>\<open>try\<close> body after
  the \<^verbatim>\<open>await\<close>, the \<^verbatim>\<open>catch\<close> and the \<^verbatim>\<open>finally\<close>.
\<close>

definition completeSettled :: "string \<Rightarrow> transfer_item \<Rightarrow> fetch_outcome \<Rightarrow> client \<Rightarrow> client" where
  "completeSettled transferId transfer outcome st =
     (let st' =
        (case outcome of
           Response r \<Rightarrow>
             if ok r
             then updateTransfer transferId
                    (noUpdates\<lparr>u_status := Some Completed, u_progress := Some 100,
                       u_loaded := Some (case t_file transfer of
                                            Some f \<Rightarrow> file_size f | None \<Rightarrow> 0)\<rparr>) st
             else if status r = 413
             then updateTransfer transferId (noUpdates\<lparr>u_status := Some Error\<rparr>) st
             else updateTransfer transferId (noUpdates\<lparr>u_status := Some Error\<rparr>) st
         | Failed \<Rightarrow> updateTransfer transferId (noUpdates\<lparr>u_status := Some Error\<rparr>) st)
      in st'\<lparr>mergingRefs := mergingRefs st' - {transferId}\<rparr>)"

text \<open>\<^verbatim>\<open>Math.round\<close> of a non-negative quotient.\<close>

definition roundDiv :: "real \<Rightarrow> real \<Rightarrow> nat" where
  "roundDiv a b = nat \<lfloor>a / b + 1 / 2\<rfloor>"

text \<open>\<^verbatim>\<open>Math.min(1000 * Math.pow(1.5, retryCount), 30000)\<close>\<close>

definition retryDelay :: "nat \<Rightarrow> real" where
  "retryDelay retryCount = min (1000 * (3 / 2) ^ retryCount) 30000"

text \<open>
  \<^verbatim>\<open>processUploadChunk\<close> after the upload of a chunk has settled: on an OK response the
  progress is recorded and the next chunk is scheduled at once with the retry count back
  at its default 0; on anything else the same chunk is scheduled again after the
  back-off delay while \<^verbatim>\<open>retryCount < 10\<close>, and the transfer is set to \<^verbatim>\<open>error\<close> otherwise.
\<close>

definition chunkSettled ::
  "int \<Rightarrow> string \<Rightarrow> nat \<Rightarrow> nat \<Rightarrow> transfer_item \<Rightarrow> fetch_outcome \<Rightarrow> client \<Rightarrow> client \<times> scheduled option"
where
  "chunkSettled now transferId chunkIndex retryCount transfer outcome st =
     (if succeeded outcome
      then
        let fileSize = (case t_file transfer of Some f \<Rightarrow> file_size f | None \<Rightarrow> 0);
            nextIndex = chunkIndex + 1;
            loaded = min (nextIndex * CHUNK_SIZE) fileSize;
            progress = roundDiv (real loaded * 100) (real fileSize);
            start = (case t_startTime transfer of
                       None \<Rightarrow> now | Some s \<Rightarrow> if s = 0 then now else s);
            speed = (if now - start > 0
                     then roundDiv (real loaded * 1000) (real_of_int (now - start)) else 0)
        in (updateTransfer transferId
              (noUpdates\<lparr>u_chunkIndex := Some nextIndex, u_loaded := Some loaded,
                 u_progress := Some progress, u_speed := Some speed\<rparr>) st,
            Some \<lparr>s_delay = 0, s_transferId = transferId,
                  s_chunkIndex = nextIndex, s_retryCount = 0\<rparr>)
      else if retryCount < 10
      then (st, Some \<lparr>s_delay = retryDelay retryCount, s_transferId = transferId,
                      s_chunkIndex = chunkIndex, s_retryCount = retryCount + 1\<rparr>)
      else (updateTransfer transferId (noUpdates\<lparr>u_status := Some Error\<rparr>) st, None))"

subsection \<open>Admission, cancellation, clearing\<close>

text \<open>
  \<^verbatim>\<open>uploadFile\<close> after its pre-flight check: \<open>canUpload\<close> is the answer of the check,
  \<open>transferId\<close> and \<open>uploadId\<close> the two random identifiers. The transfer is admitted in
  \<^verbatim>\<open>processing\<close> status and its first chunk is scheduled.
\<close>

definition uploadFile ::
  "file_obj \<Rightarrow> string option \<Rightarrow> bool \<Rightarrow> string \<Rightarrow> string \<Rightarrow> client \<Rightarrow> client \<times> scheduled option"
where
  "uploadFile file parentFolderId canUpload transferId uploadId st =
     (if user st = None \<or> \<not> canUpload then (st, None)
      else
        let newTransfer =
              \<lparr>t_id = transferId, t_name = file_name file, t_type = Upload, t_progress = 0,
               t_status = Processing, t_size = file_size file, t_loaded = 0,
               t_file = Some file, t_uploadId = Some uploadId, t_chunkIndex = Some 0,
               t_totalChunks = Some (totalChunksOf (file_size file) CHUNK_SIZE),
               t_abortController = None,
               t_parentId = orElse parentFolderId (orElse (currentFolderId st) (Some ''root'')),
               t_startTime = None, t_speed = None\<rparr>
        in (st\<lparr>transferStatusRef := (transferStatusRef st)(transferId \<mapsto> Processing),
               transfers := transfers st @ [newTransfer]\<rparr>,
            Some \<lparr>s_delay = 100, s_transferId = transferId,
                  s_chunkIndex = 0, s_retryCount = 0\<rparr>))"

text \<open>
  \<^verbatim>\<open>uploadFiles\<close> after its pre-flight check on the combined size. An item is the file,
  its target folder and the two random identifiers drawn for it. Every transfer is
  admitted in \<^verbatim>\<open>pending\<close> status; starting them is left to the queue effect.
\<close>

record upload_item =
  i_file :: file_obj
  i_parentId :: "string option"
  i_transferId :: string
  i_uploadId :: string

definition pendingTransfer :: "client \<Rightarrow> upload_item \<Rightarrow> transfer_item" where
  "pendingTransfer st item =
     \<lparr>t_id = i_transferId item, t_name = file_name (i_file item), t_type = Upload,
      t_progress = 0, t_status = Pending, t_size = file_size (i_file item), t_loaded = 0,
      t_file = Some (i_file item), t_uploadId = Some (i_uploadId item), t_chunkIndex = Some 0,
      t_totalChunks = Some (totalChunksOf (file_size (i_file item)) CHUNK_SIZE),
      t_abortController = None,
      t_parentId = orElse (i_parentId item) (orElse (currentFolderId st) (Some ''root'')),
      t_startTime = None, t_speed = None\<rparr>"

definition uploadFiles :: "upload_item list \<Rightarrow> bool \<Rightarrow> client \<Rightarrow> client" where
  "uploadFiles items canUpload st =
     (if user st = None \<or> items = [] \<or> \<not> canUpload then st
      else st\<lparr>transferStatusRef :=
                 foldl (\<lambda>m item. m(i_transferId item \<mapsto> Pending)) (transferStatusRef st) items,
               transfers := transfers st @ map (pendingTransfer st) items\<rparr>)"

text \<open>
  \<^verbatim>\<open>downloadFile\<close> up to its \<^verbatim>\<open>fetch\<close>: the transfer is admitted in \<^verbatim>\<open>processing\<close> status
  with a new controller stored in it, and the render effect records its status.
\<close>

definition downloadFile :: "string \<Rightarrow> bool \<Rightarrow> string \<Rightarrow> client \<Rightarrow> client" where
  "downloadFile fileName isFolder transferId st =
     (if user st = None then st
      else
        st\<lparr>transfers := transfers st @
              [\<lparr>t_id = transferId,
                t_name = (if isFolder then fileName @ ''.zip'' else fileName),
                t_type = Download, t_progress = 0, t_status = Processing, t_size = 0,
                t_loaded = 0, t_file = None, t_uploadId = None, t_chunkIndex = None,
                t_totalChunks = None, t_abortController = Some (controllers st),
                t_parentId = None, t_startTime = None, t_speed = None\<rparr>],
           transferStatusRef :=
             (if transferId \<in> dom (transferStatusRef st) then transferStatusRef st
              else (transferStatusRef st)(transferId \<mapsto> Processing)),
           controllers := Suc (controllers st)\<rparr>)"

text \<open>
  \<^verbatim>\<open>downloadFile\<close> after its \<^verbatim>\<open>fetch\<close>. With an OK response, \<open>totalSize\<close> is the
  \<^verbatim>\<open>Content-Length\<close> read (0 when the header is absent) and is recorded when positive.
  Each block read from the body records \<open>loaded\<close>, the progress and the speed; \<open>now\<close> is
  \<^verbatim>\<open>Date.now()\<close>. The end of the body sets the transfer to \<^verbatim>\<open>completed\<close>. An exception
  sets it to \<^verbatim>\<open>error\<close>, unless it is the \<^verbatim>\<open>AbortError\<close> of a cancellation.
\<close>

definition downloadResponded :: "nat \<Rightarrow> string \<Rightarrow> client \<Rightarrow> client" where
  "downloadResponded totalSize transferId st =
     (if 0 < totalSize then updateTransfer transferId (noUpdates\<lparr>u_size := Some totalSize\<rparr>) st
      else st)"

definition downloadProgress :: "int \<Rightarrow> nat \<Rightarrow> nat \<Rightarrow> string \<Rightarrow> client \<Rightarrow> client" where
  "downloadProgress now loaded totalSize transferId st =
     (let progress = (if 0 < totalSize then roundDiv (real loaded * 100) (real totalSize) else 0);
          start = (case find (\<lambda>t. t_id t = transferId) (transfers st) of
                     None \<Rightarrow> now
                   | Some transfer \<Rightarrow>
                       (case t_startTime transfer of
                          None \<Rightarrow> now | Some s \<Rightarrow> if s = 0 then now else s));
          speed = (if 500 < now - start
                   then roundDiv (real loaded * 1000) (real_of_int (now - start)) else 0)
      in updateTransfer transferId
           (noUpdates\<lparr>u_loaded := Some loaded, u_progress := Some progress,
              u_speed := Some speed\<rparr>) st)"

definition downloadCompleted :: "string \<Rightarrow> client \<Rightarrow> client" where
  "downloadCompleted transferId st =
     updateTransfer transferId (noUpdates\<lparr>u_status := Some Completed, u_progress := Some 100\<rparr>) st"

definition downloadFailed :: "bool \<Rightarrow> string \<Rightarrow> client \<Rightarrow> client" where
  "downloadFailed wasAborted transferId st =
     (if wasAborted then st
      else updateTransfer transferId (noUpdates\<lparr>u_status := Some Error\<rparr>) st)"

definition cancelTransfer :: "string \<Rightarrow> client \<Rightarrow> client" where
  "cancelTransfer transferId st =
     st\<lparr>aborted :=
          (case find (\<lambda>t. t_id t = transferId) (transfers st) of
             Some transfer \<Rightarrow>
               (case t_abortController transfer of
                  Some c \<Rightarrow> insert c (aborted st)
                | None \<Rightarrow> aborted st)
           | None \<Rightarrow> aborted st),
        transfers := filter (\<lambda>t. t_id t \<noteq> transferId) (transfers st)\<rparr>"

definition clearCompletedTransfers :: "transfer_type option \<Rightarrow> client \<Rightarrow> client" where
  "clearCompletedTransfers type st =
     st\<lparr>transfers :=
          filter (\<lambda>t. if t_status t \<noteq> Completed then True
                      else if type \<noteq> None \<and> Some (t_type t) \<noteq> type then True
                      else False)
            (transfers st)\<rparr>"

section \<open>One transfer from start to end\<close>

text \<open>
  The body that \<^verbatim>\<open>JSON.stringify\<close> sends and \<^verbatim>\<open>express.json()\<close> parses, with the
  \<^verbatim>\<open>x-user-id\<close> header of the logged-in user.
\<close>

definition completeRequest :: "string \<Rightarrow> complete_body \<Rightarrow> complete_req" where
  "completeRequest userId b =
     \<lparr>h_user_id = Some userId, b_uploadId = cb_uploadId b, b_fileName = Some (cb_fileName b),
      b_parentId = cb_parentId b, b_totalChunks = JNum (int (cb_totalChunks b)),
      b_mimeType = Some (cb_mimeType b), b_size = JNum (int (cb_size b))\<rparr>"

text \<open>
  The chain of calls of \<^verbatim>\<open>processUploadChunk\<close> for one transfer, each started by the
  timer of the one before, with nothing else happening in between. \<open>chunkNet\<close> answers the
  upload of a chunk (it sees the form and the retry count), \<open>completeNet\<close> the completion
  signal, with \<open>None\<close> when the server never answers it: the upload of a chunk is
  aborted after five minutes, the completion signal has no such bound. The result is what
  was sent and which timers were set, in order, and the client at the end of the chain;
  \<open>None\<close> when the chain is longer than the first argument allows.
\<close>

datatype event = SentChunk nat | SentComplete complete_body | Timer real

fun runChain ::
  "nat \<Rightarrow> (chunk_form \<Rightarrow> nat \<Rightarrow> fetch_outcome) \<Rightarrow> (complete_body \<Rightarrow> fetch_outcome option)
     \<Rightarrow> int \<Rightarrow> scheduled \<Rightarrow> client \<Rightarrow> (event list \<times> client) option"
where
  "runChain 0 chunkNet completeNet now call st = None"
| "runChain (Suc fuel) chunkNet completeNet now call st =
     (case processUploadChunk (s_transferId call) (s_chunkIndex call) (s_retryCount call) st of
        (st1, Returned None) \<Rightarrow> Some ([], st1)
      | (st1, Returned (Some next)) \<Rightarrow>
          map_option (\<lambda>(es, st2). (Timer (s_delay next) # es, st2))
            (runChain fuel chunkNet completeNet now next st1)
      | (st1, AwaitComplete transfer b) \<Rightarrow>
          (case completeNet b of
             None \<Rightarrow> Some ([SentComplete b], st1)
           | Some outcome \<Rightarrow>
               Some ([SentComplete b],
                     completeSettled (s_transferId call) transfer outcome st1))
      | (st1, AwaitChunk transfer form c) \<Rightarrow>
          (case chunkSettled now (s_transferId call) (s_chunkIndex call) (s_retryCount call)
                  transfer (chunkNet form (s_retryCount call)) st1 of
             (st2, None) \<Rightarrow> Some ([SentChunk (s_chunkIndex call)], st2)
           | (st2, Some next) \<Rightarrow>
               map_option
                 (\<lambda>(es, st3). (SentChunk (s_chunkIndex call) # Timer (s_delay next) # es, st3))
                 (runChain fuel chunkNet completeNet now next st2)))"

section \<open>States of the queue\<close>

definition initialClient :: "string option \<Rightarrow> client" where
  "initialClient u =
     \<lparr>user = u, currentFolderId = None, transfers = [], transferStatusRef = Map.empty,
      mergingRefs = {}, controllers = 0, aborted = {}\<rparr>"

text \<open>
  The identifiers drawn by \<^verbatim>\<open>Math.random().toString(36).substring(7)\<close> for a batch are
  taken to differ from each other and from those in the list.
\<close>

definition freshIds :: "upload_item list \<Rightarrow> client \<Rightarrow> bool" where
  "freshIds items st =
     (distinct (map i_transferId items)
      \<and> list_all (\<lambda>item. i_transferId item \<notin> set (map t_id (transfers st))) items)"

text \<open>
  The states that the queue reaches when uploads are admitted through \<^verbatim>\<open>uploadFiles\<close>
  (which \<^verbatim>\<open>uploadFolder\<close> also calls) and downloads through \<^verbatim>\<open>downloadFile\<close>: admission of
  a batch, a run of the queue effect, any call of \<^verbatim>\<open>processUploadChunk\<close> or of one of its
  continuations with any outcome of the network, the start of a download and any of its
  continuations, a navigation, a cancellation, a clearing. The identifier drawn for a
  download is taken to differ from those in the list.
\<close>

inductive queueReachable :: "client \<Rightarrow> bool" where
  qr_init: "queueReachable (initialClient u)"
| qr_uploadFiles:
    "queueReachable st \<Longrightarrow> freshIds items st \<Longrightarrow> queueReachable (uploadFiles items canUpload st)"
| qr_queueEffect: "queueReachable st \<Longrightarrow> queueReachable (fst (queueEffect now st))"
| qr_processUploadChunk:
    "queueReachable st \<Longrightarrow> queueReachable (fst (processUploadChunk transferId chunkIndex retryCount st))"
| qr_chunkSettled:
    "queueReachable st \<Longrightarrow>
     queueReachable (fst (chunkSettled now transferId chunkIndex retryCount transfer outcome st))"
| qr_completeSettled:
    "queueReachable st \<Longrightarrow> queueReachable (completeSettled transferId transfer outcome st)"
| qr_downloadFile:
    "queueReachable st \<Longrightarrow> transferId \<notin> set (map t_id (transfers st)) \<Longrightarrow>
     queueReachable (downloadFile fileName isFolder transferId st)"
| qr_downloadResponded:
    "queueReachable st \<Longrightarrow> queueReachable (downloadResponded totalSize transferId st)"
| qr_downloadProgress:
    "queueReachable st \<Longrightarrow> queueReachable (downloadProgress now loaded totalSize transferId st)"
| qr_downloadCompleted:
    "queueReachable st \<Longrightarrow> queueReachable (downloadCompleted transferId st)"
| qr_downloadFailed:
    "queueReachable st \<Longrightarrow> queueReachable (downloadFailed wasAborted transferId st)"
| qr_navigate: "queueReachable st \<Longrightarrow> queueReachable (st\<lparr>currentFolderId := folderId\<rparr>)"
| qr_cancelTransfer: "queueReachable st \<Longrightarrow> queueReachable (cancelTransfer transferId st)"
| qr_clearCompletedTransfers:
    "queueReachable st \<Longrightarrow> queueReachable (clearCompletedTransfers type st)"


section \<open>Outcomes of the two quota checks\<close>


definition commitAdmits :: "(http_response \<times> server) option \<Rightarrow> bool" where
  "commitAdmits result =
     (case answerStatus result of None \<Rightarrow> True | Some code \<Rightarrow> code = 200 \<or> code = 500)"

section \<open>Concrete servers, requests and clients\<close>

text \<open>
  A completion request of user \<^verbatim>\<open>user-1\<close> for session \<^verbatim>\<open>k3x9\<close>, a server where that user
  has the given limit, one committed file of the given size and the given session
  directory, and a client with that user logged in.
\<close>

definition demoRequest :: "jsval \<Rightarrow> jsval \<Rightarrow> complete_req" where
  "demoRequest totalChunks declaredSize =
     \<lparr>h_user_id = Some ''user-1'', b_uploadId = Some ''k3x9'', b_fileName = Some ''a.bin'',
      b_parentId = Some ''root'', b_totalChunks = totalChunks, b_mimeType = Some '''',
      b_size = declaredSize\<rparr>"

definition storedRow :: "int \<Rightarrow> file_row" where
  "storedRow n =
     \<lparr>f_id = ''f0'', f_user_id = ''user-1'', f_parent_id = None, f_name = ''old.bin'',
      f_type = FileNode, f_size = n, f_path = Some [''uploads'', ''user-1'', ''old.bin''],
      f_mime_type = None, f_created_at = 1\<rparr>"

definition demoServer :: "int \<Rightarrow> int \<Rightarrow> (nat \<rightharpoonup> byte list) \<Rightarrow> server" where
  "demoServer limit used dir =
     \<lparr>users = [''user-1'' \<mapsto> limit], files = [storedRow used],
      tempDirs = [''k3x9'' \<mapsto> dir], disk = Map.empty\<rparr>"

definition demoFile :: "byte list \<Rightarrow> file_obj" where
  "demoFile bytes = \<lparr>file_name = ''a.bin'', file_type = '''', file_bytes = bytes\<rparr>"

definition loggedIn :: client where
  "loggedIn = initialClient (Some ''user-1'')"

text \<open>One upload of three bytes admitted by \<^verbatim>\<open>uploadFile\<close>, before its first chunk.\<close>

definition uploading :: client where
  "uploading = fst (uploadFile (demoFile [1, 2, 3]) None True ''t1'' ''k3x9'' loggedIn)"

text \<open>An upload that has ended in the given status.\<close>

definition finishedItem :: "string \<Rightarrow> transfer_status \<Rightarrow> transfer_item" where
  "finishedItem transferId s =
     \<lparr>t_id = transferId, t_name = ''a.bin'', t_type = Upload, t_progress = 100, t_status = s,
      t_size = 3, t_loaded = 3, t_file = Some (demoFile [1, 2, 3]), t_uploadId = Some ''k3x9'',
      t_chunkIndex = Some 1, t_totalChunks = Some 1, t_abortController = None,
      t_parentId = Some ''root'', t_startTime = Some 5, t_speed = Some 0\<rparr>"

section \<open>What a chain that always fails sends\<close>

text \<open>
  The chunk with the given ordinal is sent, a timer with the back-off delay of the retry
  count is set, and so on for the retry counts up to 9; the chunk is sent once more at
  retry count 10.
\<close>

definition retryTrace :: "nat \<Rightarrow> nat \<Rightarrow> event list" where
  "retryTrace chunkIndex retryCount =
     concat (map (\<lambda>k. [SentChunk chunkIndex, Timer (retryDelay k)]) [retryCount ..< 10])
     @ [SentChunk chunkIndex]"

definition isSentChunk :: "event \<Rightarrow> bool" where
  "isSentChunk e = (case e of SentChunk i \<Rightarrow> True | _ \<Rightarrow> False)"

section \<open>A batch with an empty file\<close>

text \<open>A batch of an empty file and a three-byte file, admitted and with its first member promoted.\<close>

definition emptyFile :: file_obj where
  "emptyFile = \<lparr>file_name = ''empty.txt'', file_type = ''text/plain'', file_bytes = []\<rparr>"

definition batch :: "upload_item list" where
  "batch = [\<lparr>i_file = emptyFile, i_parentId = None, i_transferId = ''t1'', i_uploadId = ''k3x9''\<rparr>,
            \<lparr>i_file = demoFile [1, 2, 3], i_parentId = None, i_transferId = ''t2'',
             i_uploadId = ''p7q2''\<rparr>]"

definition promoted :: client where
  "promoted = fst (queueEffect 5 (uploadFiles batch True loggedIn))"

section \<open>Promotion and the invariant of the queue\<close>

text \<open>Promotion as the spec words it: the earliest pending transfer of the list becomes processing.\<close>

fun promoteFirst :: "int \<Rightarrow> transfer_item list \<Rightarrow> transfer_item list" where
  "promoteFirst now [] = []"
| "promoteFirst now (t # ts) =
     (if t_status t = Pending
      then t\<lparr>t_status := Processing, t_startTime := Some now\<rparr> # ts
      else t # promoteFirst now ts)"

definition queueInvariant :: "client \<Rightarrow> bool" where
  "queueInvariant st =
     (distinct (map t_id (transfers st)) \<and> activeUploads st \<le> MAX_CONCURRENT_UPLOADS)"

text \<open>Downloads started one after the other, one per identifier.\<close>

definition directDownloads :: "string list \<Rightarrow> client" where
  "directDownloads ids =
     foldl (\<lambda>st transferId. downloadFile ''a.bin'' False transferId st) loggedIn ids"

text \<open>
  One download started, then a batch of six files admitted, and the queue effect run six
  times.
\<close>

definition sixItems :: "upload_item list" where
  "sixItems =
     map (\<lambda>transferId. \<lparr>i_file = demoFile [1, 2, 3], i_parentId = None,
                          i_transferId = transferId, i_uploadId = transferId\<rparr>)
       [''t1'', ''t2'', ''t3'', ''t4'', ''t5'', ''t6'']"

definition sixQueued :: client where
  "sixQueued =
     fst (queueEffect 6 (fst (queueEffect 5 (fst (queueEffect 4 (fst (queueEffect 3
       (fst (queueEffect 2 (fst (queueEffect 1
         (uploadFiles sixItems True (downloadFile ''a.bin'' False ''d1'' loggedIn)))))))))))))"

section \<open>Properties of the splitter\<close>

lemma chunkAt_take_drop:
  "chunkAt S file i = take S (drop (i * S) file)"
proof (cases "i * S \<le> length file")
  case True
  then show ?thesis
    by (simp add: chunkAt_def slice_def Let_def min_def)
next
  case False
  then show ?thesis
    by (simp add: chunkAt_def slice_def Let_def min_def)
qed

lemma concat_chunks_take:
  "concat (map (chunkAt S file) [0 ..< n]) = take (n * S) file"
proof (induction n)
  case 0
  then show ?case by simp
next
  case (Suc n)
  have "take (n * S) file @ take S (drop (n * S) file) = take (n * S + S) file"
    by (simp add: take_add)
  with Suc show ?case
    by (simp add: chunkAt_take_drop add.commute)
qed

lemma totalChunksOf_last_partial:
  assumes "1 \<le> C" and "0 < r" and "r \<le> S"
  shows "totalChunksOf ((C - 1) * S + r) S = C"
proof -
  have S: "0 < S" using assms by simp
  obtain k where C: "C = Suc k" using assms(1) by (cases C) auto
  have q: "real (k * S + r) / real S = real k + real r / real S"
    using S by (simp add: field_simps)
  have lo: "0 < real r / real S" using assms S by simp
  have hi: "real r / real S \<le> 1" using assms S by simp
  have "\<lceil>real k + real r / real S\<rceil> = int k + 1"
    using lo hi by (simp add: ceiling_eq_iff)
  then have "\<lceil>real (k * S + r) / real S\<rceil> = int k + 1"
    by (simp only: q)
  then show ?thesis
    by (simp only: totalChunksOf_def C diff_Suc_1)
qed

text \<open>
  C3. A file of size \<open>F = (C - 1) * S + r\<close> with \<open>C \<ge> 1\<close> and \<open>0 < r \<le> S\<close> is cut into
  exactly \<open>C\<close> chunks, and the chunks concatenated in ordinal order are the file.
\<close>

theorem split_reconstructs:
  assumes "1 \<le> C" and "0 < r" and "r \<le> S"
    and "length file = (C - 1) * S + r"
  shows "totalChunksOf (length file) S = C
       \<and> length (splitFile S file) = C
       \<and> concat (splitFile S file) = file"
proof -
  have n: "totalChunksOf (length file) S = C"
    using assms totalChunksOf_last_partial by simp
  have "length file \<le> C * S"
  proof -
    obtain k where "C = Suc k" using assms(1) by (cases C) auto
    then show ?thesis using assms by simp
  qed
  then have "concat (map (chunkAt S file) [0 ..< C]) = file"
    by (simp add: concat_chunks_take)
  then show ?thesis
    using n by (simp add: splitFile_def)
qed

theorem split_reconstructs_witness:
  "totalChunksOf (length [1, 2, 3, 4, 5 :: byte]) 2 = 3
   \<and> length (splitFile 2 [1, 2, 3, 4, 5 :: byte]) = 3
   \<and> concat (splitFile 2 [1, 2, 3, 4, 5 :: byte]) = [1, 2, 3, 4, 5]"
  using split_reconstructs [of 3 1 2 "[1, 2, 3, 4, 5 :: byte]"] by simp

lemma totalChunksOf_zero: "totalChunksOf 0 S = 0"
  by (simp add: totalChunksOf_def)

lemma totalChunksOf_one_chunk: "0 < n \<Longrightarrow> n \<le> S \<Longrightarrow> totalChunksOf n S = 1"
  using totalChunksOf_last_partial [of 1 n S] by simp

section \<open>Reading numbers\<close>

text \<open>An integer below \<open>2 ^ 53\<close> in magnitude is read as itself.\<close>

lemma parseIntNumber_safe: "safeInteger n \<Longrightarrow> parseIntNumber n = Some n"
  by (auto simp add: safeInteger_def parseIntNumber_def toDouble_def isInfinite_def Let_def)

lemma parseInt_safe: "safeInteger n \<Longrightarrow> parseInt (JNum n) = Some n"
  by (simp add: parseIntNumber_safe)




lemma parseIntOr0_safe: "safeInteger n \<Longrightarrow> parseIntOr0 (JNum n) = n"
  by (simp add: parseIntOr0_def parseIntNumber_safe)

lemma parseIntOr0_absent: "parseIntOr0 JUndefined = 0"
  by (simp add: parseIntOr0_def)


section \<open>Quota arbitration at commit\<close>

lemmas demo_defs = demoRequest_def storedRow_def demoServer_def present_def respond_def
  currentUsage_def rootPath_def answerStatus_def parseIntOr0_safe parseIntOr0_absent
  safeInteger_def

text \<open>The assembly ends in 200 or in 500, or never answers.\<close>

lemma assembleUpload_status:
  "commitAdmits (assembleUpload fileId now userId uploadId fileName req st)"
proof (cases "getPhysicalPath (Suc (length (files st))) (files st) userId (b_parentId req)")
  case None
  then show ?thesis by (simp add: assembleUpload_def commitAdmits_def answerStatus_def)
next
  case (Some targetDir)
  obtain r dir' written where m:
    "mergeChunks (nat (parseIntOr0 (b_totalChunks req))) 0
       (case tempDirs st uploadId of None \<Rightarrow> Map.empty | Some d \<Rightarrow> d) [] = (r, dir', written)"
    by (cases "mergeChunks (nat (parseIntOr0 (b_totalChunks req))) 0
       (case tempDirs st uploadId of None \<Rightarrow> Map.empty | Some d \<Rightarrow> d) []") auto
  show ?thesis
  proof (cases r)
    case (Inl i)
    then show ?thesis
      using Some m
      by (simp add: assembleUpload_def commitAdmits_def answerStatus_def respond_def)
  next
    case (Inr u)
    then show ?thesis
      using Some m
      by (simp add: assembleUpload_def commitAdmits_def answerStatus_def respond_def Let_def
          split: option.splits)
  qed
qed

lemma completeUpload_past_quota:
  assumes "h_user_id req = Some userId" and "userId \<noteq> []"
    and "b_uploadId req = Some uploadId" and "uploadId \<noteq> []"
    and "b_fileName req = Some fileName" and "fileName \<noteq> []"
    and "truthy (b_totalChunks req)"
    and "users st userId = Some limit"
    and "parseIntOr0 (b_size req) \<le> limit - currentUsage (files st) userId"
  shows "completeUpload fileId now req st
           = assembleUpload fileId now userId uploadId fileName req st"
  using assms by (simp add: completeUpload_def present_def Let_def)

lemma completeUpload_over_quota:
  assumes "h_user_id req = Some userId" and "userId \<noteq> []"
    and "b_uploadId req = Some uploadId" and "uploadId \<noteq> []"
    and "b_fileName req = Some fileName" and "fileName \<noteq> []"
    and "truthy (b_totalChunks req)"
    and "users st userId = Some limit"
    and "\<not> parseIntOr0 (b_size req) \<le> limit - currentUsage (files st) userId"
  shows "completeUpload fileId now req st =
           Some (respond 413 (QuotaExceededBody (currentUsage (files st) userId) limit
                   (limit - currentUsage (files st) userId) (parseIntOr0 (b_size req))),
                 st\<lparr>tempDirs := (tempDirs st)(uploadId := None)\<rparr>)"
  using assms by (simp add: completeUpload_def present_def Let_def)




text \<open>
  C2. Three chunks are declared and chunk 1 is absent: the handler answers 500 and the
  catalog is as before, but the destination file holds the bytes of chunk 0.
\<close>

theorem missing_chunk_leaves_truncated_artifact:
  "map_option (\<lambda>(r, st'). (status r, files st', disk st' [''uploads'', ''user-1'', ''a.bin'']))
     (completeUpload ''id1'' 7 (demoRequest (JNum 3) (JNum 5))
        (demoServer 1000 0 [0 \<mapsto> [1, 2], 2 \<mapsto> [5]]))
   = Some (500, [storedRow 0], Some [1, 2])"
  by (simp add: completeUpload_def assembleUpload_def demo_defs eval_nat_numeral Let_def)

theorem missing_chunk_leaves_truncated_artifact_witness:
  "completeUpload ''id1'' 7 (demoRequest (JNum 3) (JNum 5))
     (demoServer 1000 0 [0 \<mapsto> [1, 2], 2 \<mapsto> [5]]) \<noteq> None"
  using missing_chunk_leaves_truncated_artifact by auto

section \<open>The two quota checks compared\<close>




section \<open>A completion request without a usable size\<close>

text \<open>
  C10, as stated, fails for an owner who is already over the limit (limit 100, consumption
  200): the request without a size field is answered with 413.
\<close>

theorem missing_size_counterexample:
  "answerStatus (completeUpload ''id1'' 7 (demoRequest (JNum 1) JUndefined)
     (demoServer 100 200 [0 \<mapsto> [1, 2]])) = Some 413"
  by (simp add: completeUpload_def demo_defs Let_def)

text \<open>
  C10, amended. A completion request whose size field is omitted or does not parse as a
  number is not answered with 400; its size counts as 0 bytes, so the quota check rejects
  it exactly when the owner's consumption already exceeds the limit, and lets it pass
  whatever the remaining capacity otherwise.
\<close>

theorem missing_size_passes_quota:
  assumes "h_user_id req = Some userId" and "userId \<noteq> []"
    and "b_uploadId req = Some uploadId" and "uploadId \<noteq> []"
    and "b_fileName req = Some fileName" and "fileName \<noteq> []"
    and "truthy (b_totalChunks req)"
    and "users st userId = Some limit"
    and "parseInt (b_size req) = None"
  shows "parseIntOr0 (b_size req) = 0
       \<and> answerStatus (completeUpload fileId now req st) \<noteq> Some 400
       \<and> (answerStatus (completeUpload fileId now req st) = Some 413
            \<longleftrightarrow> limit < currentUsage (files st) userId)"
proof -
  have z: "parseIntOr0 (b_size req) = 0"
    using assms(9) by (simp add: parseIntOr0_def)
  show ?thesis
  proof (cases "limit < currentUsage (files st) userId")
    case True
    then have "\<not> parseIntOr0 (b_size req) \<le> limit - currentUsage (files st) userId"
      using z by simp
    from completeUpload_over_quota [OF assms(1-8) this]
    show ?thesis using True z by (simp add: respond_def answerStatus_def)
  next
    case False
    then have "parseIntOr0 (b_size req) \<le> limit - currentUsage (files st) userId"
      using z by simp
    from completeUpload_past_quota [OF assms(1-8) this]
      assembleUpload_status [of fileId now userId uploadId fileName req st]
    show ?thesis
      using False z by (auto simp add: commitAdmits_def split: option.splits)
  qed
qed

theorem missing_size_passes_quota_witness:
  "parseInt (JStr ''n/a'') = None
   \<and> answerStatus (completeUpload ''id1'' 7 (demoRequest (JNum 1) (JStr ''n/a''))
        (demoServer 3 3 [0 \<mapsto> [1, 2]])) \<noteq> Some 400
   \<and> answerStatus (completeUpload ''id1'' 7 (demoRequest (JNum 1) (JStr ''n/a''))
        (demoServer 3 3 [0 \<mapsto> [1, 2]])) \<noteq> Some 413"
proof -
  have n: "parseIntStr ''n/a'' = None"
    by (simp add: parseIntStr_def isBlank1_def isBlank2_def isBlank3_def digitValue_def Let_def)
  have c: "currentUsage (files (demoServer 3 3 [0 \<mapsto> [1, 2]])) ''user-1'' = 3"
    by (simp add: demoServer_def storedRow_def currentUsage_def)
  have "answerStatus (completeUpload ''id1'' 7 (demoRequest (JNum 1) (JStr ''n/a''))
          (demoServer 3 3 [0 \<mapsto> [1, 2]])) \<noteq> Some 400
      \<and> (answerStatus (completeUpload ''id1'' 7 (demoRequest (JNum 1) (JStr ''n/a''))
            (demoServer 3 3 [0 \<mapsto> [1, 2]])) = Some 413
          \<longleftrightarrow> 3 < currentUsage (files (demoServer 3 3 [0 \<mapsto> [1, 2]])) ''user-1'')"
    by (rule missing_size_passes_quota [where userId = "''user-1''" and uploadId = "''k3x9''"
          and fileName = "''a.bin''", THEN conjunct2])
       (simp_all add: n demoRequest_def demoServer_def)
  then show ?thesis by (simp add: n c)
qed

section \<open>Cancelling and clearing\<close>

lemmas client_defs = demoFile_def loggedIn_def uploading_def initialClient_def uploadFile_def
  file_size_def orElse_def present_def

lemma uploading_eq:
  "uploading = \<lparr>user = Some ''user-1'', currentFolderId = None,
     transfers = [\<lparr>t_id = ''t1'', t_name = ''a.bin'', t_type = Upload, t_progress = 0,
       t_status = Processing, t_size = 3, t_loaded = 0, t_file = Some (demoFile [1, 2, 3]),
       t_uploadId = Some ''k3x9'', t_chunkIndex = Some 0, t_totalChunks = Some 1,
       t_abortController = None, t_parentId = Some ''root'', t_startTime = None,
       t_speed = None\<rparr>],
     transferStatusRef = [''t1'' \<mapsto> Processing], mergingRefs = {}, controllers = 0,
     aborted = {}\<rparr>"
  by (simp add: client_defs Let_def totalChunksOf_one_chunk CHUNK_SIZE_def)

text \<open>
  C6. An upload has its first chunk in flight under a controller. \<^verbatim>\<open>cancelTransfer\<close>
  removes the transfer from the list but does not abort that controller, so the call goes
  on; the controller of a download is aborted by the same operation.
\<close>

theorem cancel_does_not_abort_upload:
  "(case processUploadChunk ''t1'' 0 0 uploading of
      (st, AwaitChunk transfer form c) \<Rightarrow>
        transfers (cancelTransfer ''t1'' st) = [] \<and> c \<notin> aborted (cancelTransfer ''t1'' st)
    | _ \<Rightarrow> False)
   \<and> aborted (cancelTransfer ''d1'' (downloadFile ''a.bin'' False ''d1'' loggedIn)) = {0}"
  by (simp add: uploading_eq processUploadChunk_def cancelTransfer_def downloadFile_def
      loggedIn_def initialClient_def Let_def orElse_def present_def)

theorem cancel_does_not_abort_upload_witness:
  "aborted (cancelTransfer ''d1'' (downloadFile ''a.bin'' False ''d1'' loggedIn)) \<noteq> {}"
  using cancel_does_not_abort_upload by simp

text \<open>
  C8. Clearing the uploads of a list that holds one failed and one completed upload
  removes the completed one and keeps the failed one.
\<close>

theorem clear_keeps_error_entries:
  "transfers (clearCompletedTransfers (Some Upload)
     (loggedIn\<lparr>transfers := [finishedItem ''t1'' Error, finishedItem ''t2'' Completed]\<rparr>))
   = [finishedItem ''t1'' Error]"
  by (simp add: clearCompletedTransfers_def finishedItem_def)

theorem clear_keeps_error_entries_witness:
  "length (transfers (clearCompletedTransfers (Some Upload)
     (loggedIn\<lparr>transfers := [finishedItem ''t1'' Error, finishedItem ''t2'' Completed]\<rparr>)))
   = 1"
  using clear_keeps_error_entries by simp

section \<open>Retry with back-off\<close>

lemma processUploadChunk_sends_chunk:
  assumes "find (\<lambda>t. t_id t = tid) (transfers st) = Some t"
    and "t_file t = Some f" and "user st = Some u" and "t_status t = Processing"
    and "t_totalChunks t = Some n" and "ci < n"
  shows "\<exists>form. processUploadChunk tid ci rc (st\<lparr>controllers := c\<rparr>)
           = (st\<lparr>controllers := Suc c\<rparr>, AwaitChunk t form c)"
  using assms by (simp add: processUploadChunk_def Let_def)

lemma chunkSettled_failure:
  assumes "\<not> succeeded outcome"
  shows "chunkSettled now tid ci rc t outcome st =
     (if rc < 10
      then (st, Some \<lparr>s_delay = retryDelay rc, s_transferId = tid,
                      s_chunkIndex = ci, s_retryCount = rc + 1\<rparr>)
      else (updateTransfer tid (noUpdates\<lparr>u_status := Some Error\<rparr>) st, None))"
  using assms by (simp add: chunkSettled_def)

lemma retryTrace_step:
  "rc < 10 \<Longrightarrow> retryTrace ci rc = SentChunk ci # Timer (retryDelay rc) # retryTrace ci (Suc rc)"
  by (simp add: retryTrace_def upt_rec [of rc 10])

lemma retryTrace_last: "retryTrace ci 10 = [SentChunk ci]"
  by (simp add: retryTrace_def)

text \<open>
  From any retry count up to 10: the chain sends the same chunk until the failure at
  retry count 10, where it sets the transfer to \<^verbatim>\<open>error\<close> and stops.
\<close>

lemma retry_chain:
  assumes "find (\<lambda>t. t_id t = tid) (transfers st) = Some t"
    and "t_file t = Some f" and "user st = Some u" and "t_status t = Processing"
    and "t_totalChunks t = Some n" and "ci < n"
    and fails: "\<And>form k. \<not> succeeded (chunkNet form k)"
  shows "rc \<le> 10 \<Longrightarrow> 10 - rc < fuel \<Longrightarrow>
     runChain fuel chunkNet completeNet now
       \<lparr>s_delay = d, s_transferId = tid, s_chunkIndex = ci, s_retryCount = rc\<rparr>
       (st\<lparr>controllers := c\<rparr>)
     = Some (retryTrace ci rc,
             updateTransfer tid (noUpdates\<lparr>u_status := Some Error\<rparr>)
               (st\<lparr>controllers := c + (11 - rc)\<rparr>))"
proof (induction fuel arbitrary: rc c d)
  case 0
  then show ?case by simp
next
  case (Suc fuel)
  obtain form where p: "processUploadChunk tid ci rc (st\<lparr>controllers := c\<rparr>)
           = (st\<lparr>controllers := Suc c\<rparr>, AwaitChunk t form c)"
    using processUploadChunk_sends_chunk [OF assms(1-6)] by blast
  show ?case
  proof (cases "rc < 10")
    case True
    then have "10 - Suc rc < fuel" "Suc rc \<le> 10" using Suc.prems by auto
    note ih = Suc.IH [OF this(2) this(1), of "retryDelay rc" "Suc c"]
    have ar: "Suc c + (11 - Suc rc) = c + (11 - rc)" using True by simp
    show ?thesis
      using True p ih [unfolded ar]
      by (simp add: chunkSettled_failure [OF fails] retryTrace_step)
  next
    case False
    then have "rc = 10" using Suc.prems by simp
    then show ?thesis
      using p by (simp add: chunkSettled_failure [OF fails] retryTrace_last)
  qed
qed

lemma upt_10: "[0 ..< 10] = [0, 1, 2, 3, 4, 5, 6, 7, 8, 9 :: nat]"
  by (simp add: upt_rec)

lemma retryDelay_values:
  "map retryDelay [0 ..< 10] =
     [1000, 1500, 2250, 3375, 10125 / 2, 30375 / 4, 91125 / 8, 273375 / 16, 820125 / 32, 30000]"
  by (simp add: upt_10 retryDelay_def power_divide)

lemma retryTrace_attempts: "length (filter isSentChunk (retryTrace ci 0)) = 11"
  by (simp add: retryTrace_def upt_10 isSentChunk_def)

lemma retryTrace_timers:
  "[d. Timer d \<leftarrow> retryTrace ci 0] = map retryDelay [0 ..< 10]"
  by (simp add: retryTrace_def upt_10)

lemma updateTransfer_siblings:
  "filter (\<lambda>x. t_id x \<noteq> tid) (transfers (updateTransfer tid upd st))
     = filter (\<lambda>x. t_id x \<noteq> tid) (transfers st)"
proof -
  have "filter (\<lambda>x. t_id x \<noteq> tid) (map (\<lambda>t. if t_id t = tid then applyUpdates upd t else t) xs)
          = filter (\<lambda>x. t_id x \<noteq> tid) xs" for xs
    by (induction xs) (simp_all add: applyUpdates_def)
  then show ?thesis by (simp add: updateTransfer_def)
qed

lemma updateTransfer_status:
  "list_all (\<lambda>x. t_id x = tid \<longrightarrow> t_status x = s)
     (transfers (updateTransfer tid (noUpdates\<lparr>u_status := Some s\<rparr>) st))"
proof -
  have "list_all (\<lambda>x. t_id x = tid \<longrightarrow> t_status x = s)
          (map (\<lambda>t. if t_id t = tid
                     then applyUpdates (noUpdates\<lparr>u_status := Some s\<rparr>) t else t) xs)" for xs
    by (induction xs) (simp_all add: applyUpdates_def noUpdates_def)
  then show ?thesis by (simp add: updateTransfer_def)
qed

text \<open>
  C5, as stated, fails on the number of attempts: an upload whose chunk fails every time
  sends that chunk 11 times before its transfer is set to \<^verbatim>\<open>error\<close>, not 10 times.
\<close>

theorem retry_attempts_counterexample:
  "map_option (\<lambda>(es, st). (length (filter isSentChunk es), map t_status (transfers st)))
     (runChain 11 (\<lambda>form k. Failed) (\<lambda>b. Some Failed) 0
        \<lparr>s_delay = 100, s_transferId = ''t1'', s_chunkIndex = 0, s_retryCount = 0\<rparr> uploading)
   = Some (11, [Error])"
proof -
  have u: "uploading\<lparr>controllers := 0\<rparr> = uploading"
    by (simp add: uploading_eq)
  have "runChain 11 (\<lambda>form k. Failed) (\<lambda>b. Some Failed) 0
          \<lparr>s_delay = 100, s_transferId = ''t1'', s_chunkIndex = 0, s_retryCount = 0\<rparr>
          (uploading\<lparr>controllers := 0\<rparr>)
        = Some (retryTrace 0 0,
                updateTransfer ''t1'' (noUpdates\<lparr>u_status := Some Error\<rparr>)
                  (uploading\<lparr>controllers := 0 + (11 - 0)\<rparr>))"
    by (rule retry_chain [where t = "hd (transfers uploading)" and n = 1])
       (simp_all add: uploading_eq succeeded_def)
  then show ?thesis
    by (simp add: u retryTrace_attempts)
       (simp add: uploading_eq updateTransfer_def applyUpdates_def noUpdates_def)
qed

text \<open>
  C5, amended. A chunk whose upload fails on every attempt is sent again, the same
  ordinal each time, after the delay \<open>min (1000 * 1.5 ^ retryCount) 30000\<close> ms for the
  retry counts 0 to 9; the transfer is set to \<^verbatim>\<open>error\<close> when the 11th attempt (the
  first one and 10 retries) has failed, and not before. The other transfers of the list
  are as they were.
\<close>

theorem retry_bound:
  assumes "find (\<lambda>t. t_id t = tid) (transfers st) = Some t"
    and "t_file t = Some f" and "user st = Some u" and "t_status t = Processing"
    and "t_totalChunks t = Some n" and "ci < n"
    and "\<And>form k. \<not> succeeded (chunkNet form k)"
    and "10 < fuel"
  shows "runChain fuel chunkNet completeNet now
           \<lparr>s_delay = d, s_transferId = tid, s_chunkIndex = ci, s_retryCount = 0\<rparr> st
         = Some (retryTrace ci 0,
                 updateTransfer tid (noUpdates\<lparr>u_status := Some Error\<rparr>)
                   (st\<lparr>controllers := controllers st + 11\<rparr>))
       \<and> length (filter isSentChunk (retryTrace ci 0)) = 11
       \<and> [d. Timer d \<leftarrow> retryTrace ci 0] = map retryDelay [0 ..< 10]
       \<and> list_all (\<lambda>x. t_id x = tid \<longrightarrow> t_status x = Error)
           (transfers (updateTransfer tid (noUpdates\<lparr>u_status := Some Error\<rparr>)
                         (st\<lparr>controllers := controllers st + 11\<rparr>)))
       \<and> filter (\<lambda>x. t_id x \<noteq> tid)
           (transfers (updateTransfer tid (noUpdates\<lparr>u_status := Some Error\<rparr>)
                         (st\<lparr>controllers := controllers st + 11\<rparr>)))
         = filter (\<lambda>x. t_id x \<noteq> tid) (transfers st)"
proof -
  have "runChain fuel chunkNet completeNet now
           \<lparr>s_delay = d, s_transferId = tid, s_chunkIndex = ci, s_retryCount = 0\<rparr>
           (st\<lparr>controllers := controllers st\<rparr>)
         = Some (retryTrace ci 0,
                 updateTransfer tid (noUpdates\<lparr>u_status := Some Error\<rparr>)
                   (st\<lparr>controllers := controllers st + (11 - 0)\<rparr>))"
    using assms(8) by (intro retry_chain [OF assms(1-7)]) simp_all
  then show ?thesis
    by (simp add: retryTrace_attempts retryTrace_timers updateTransfer_status
        updateTransfer_siblings)
qed

theorem retry_bound_witness:
  "runChain 11 (\<lambda>form k. Failed) (\<lambda>b. Some Failed) 0
     \<lparr>s_delay = 100, s_transferId = ''t1'', s_chunkIndex = 0, s_retryCount = 0\<rparr> uploading
   = Some (retryTrace 0 0,
           updateTransfer ''t1'' (noUpdates\<lparr>u_status := Some Error\<rparr>)
             (uploading\<lparr>controllers := 11\<rparr>))"
proof -
  have c: "controllers uploading + 11 = 11"
    by (simp add: uploading_eq)
  have "runChain 11 (\<lambda>form k. Failed) (\<lambda>b. Some Failed) 0
     \<lparr>s_delay = 100, s_transferId = ''t1'', s_chunkIndex = 0, s_retryCount = 0\<rparr> uploading
   = Some (retryTrace 0 0,
           updateTransfer ''t1'' (noUpdates\<lparr>u_status := Some Error\<rparr>)
             (uploading\<lparr>controllers := controllers uploading + 11\<rparr>))"
    by (rule retry_bound [where t = "hd (transfers uploading)" and n = 1, THEN conjunct1])
       (simp_all add: uploading_eq succeeded_def)
  then show ?thesis by (simp only: c)
qed

section \<open>A file of size 0\<close>

lemma completeUpload_zero_chunks:
  "b_totalChunks req = JNum 0 \<Longrightarrow>
   completeUpload fileId now req st
     = Some (respond 400 (ErrorBody ''Missing required fields''), st)"
  by (simp add: completeUpload_def)

lemma find_updateTransfer:
  "find (\<lambda>x. t_id x = tid) (transfers st) = Some t \<Longrightarrow>
   find (\<lambda>x. t_id x = tid) (transfers (updateTransfer tid upd st)) = Some (applyUpdates upd t)"
proof -
  have "find (\<lambda>x. t_id x = tid) xs = Some t \<Longrightarrow>
        find (\<lambda>x. t_id x = tid) (map (\<lambda>t. if t_id t = tid then applyUpdates upd t else t) xs)
          = Some (applyUpdates upd t)" for xs
    by (induction xs) (auto simp add: applyUpdates_def)
  then show "find (\<lambda>x. t_id x = tid) (transfers st) = Some t \<Longrightarrow> ?thesis"
    by (simp add: updateTransfer_def)
qed

text \<open>
  C9. A transfer of a file of size 0, as the batch admission creates it and the queue
  effect promotes it, has 0 chunks; its chain sends no chunk and sends the completion
  signal with \<^verbatim>\<open>totalChunks\<close> 0 at once; the server answers 400 for the missing field and
  commits nothing; the transfer ends in \<^verbatim>\<open>error\<close>.
\<close>

theorem zero_byte_upload_fails:
  assumes "find (\<lambda>x. t_id x = tid) (transfers st) = Some t"
    and "t_file t = Some f" and "file_size f = 0"
    and "t_totalChunks t = Some (totalChunksOf (file_size f) CHUNK_SIZE)"
    and "t_status t = Processing"
    and "user st = Some userId"
    and "transferStatusRef st tid = Some Processing"
    and "tid \<notin> mergingRefs st"
  shows "totalChunksOf (file_size f) CHUNK_SIZE = 0
       \<and> (\<exists>b st'.
            runChain (Suc fuel) chunkNet
              (\<lambda>b. map_option (\<lambda>(r, srv'). Response r)
                     (completeUpload fileId clock (completeRequest userId b) srv))
              now \<lparr>s_delay = d, s_transferId = tid, s_chunkIndex = 0, s_retryCount = 0\<rparr> st
              = Some ([SentComplete b], st')
            \<and> cb_totalChunks b = 0
            \<and> completeUpload fileId clock (completeRequest userId b) srv
                = Some (respond 400 (ErrorBody ''Missing required fields''), srv)
            \<and> map_option t_status (find (\<lambda>x. t_id x = tid) (transfers st')) = Some Error)"
proof -
  have z: "totalChunksOf (file_size f) CHUNK_SIZE = 0"
    using assms(3) by (simp add: totalChunksOf_zero)
  let ?b = "\<lparr>cb_uploadId = t_uploadId t, cb_fileName = file_name f,
             cb_parentId = orElse (t_parentId t) (orElse (currentFolderId st) (Some ''root'')),
             cb_totalChunks = 0, cb_mimeType = file_type f, cb_size = file_size f\<rparr>"
  let ?st1 = "updateTransfer tid (noUpdates\<lparr>u_status := Some Merging, u_progress := Some 100\<rparr>)
                (st\<lparr>mergingRefs := insert tid (mergingRefs st)\<rparr>)"
  have p: "processUploadChunk tid 0 0 st = (?st1, AwaitComplete t ?b)"
    using assms z by (simp add: processUploadChunk_def Let_def)
  have r: "completeUpload fileId clock (completeRequest userId ?b) srv
             = Some (respond 400 (ErrorBody ''Missing required fields''), srv)"
    by (rule completeUpload_zero_chunks) (simp add: completeRequest_def)
  let ?st2 = "completeSettled tid t
                (Response (respond 400 (ErrorBody ''Missing required fields''))) ?st1"
  have run: "runChain (Suc fuel) chunkNet
              (\<lambda>b. map_option (\<lambda>(r, srv'). Response r)
                     (completeUpload fileId clock (completeRequest userId b) srv))
              now \<lparr>s_delay = d, s_transferId = tid, s_chunkIndex = 0, s_retryCount = 0\<rparr> st
              = Some ([SentComplete ?b], ?st2)"
    by (simp add: p r)
  have f1: "find (\<lambda>x. t_id x = tid) (transfers ?st1)
              = Some (applyUpdates (noUpdates\<lparr>u_status := Some Merging, u_progress := Some 100\<rparr>) t)"
    using assms(1) by (intro find_updateTransfer) simp
  have "find (\<lambda>x. t_id x = tid) (transfers ?st2)
          = Some (applyUpdates (noUpdates\<lparr>u_status := Some Error\<rparr>)
              (applyUpdates (noUpdates\<lparr>u_status := Some Merging, u_progress := Some 100\<rparr>) t))"
    using find_updateTransfer [OF f1, of "noUpdates\<lparr>u_status := Some Error\<rparr>"]
    by (simp add: completeSettled_def respond_def ok_def Let_def)
  then have e: "map_option t_status (find (\<lambda>x. t_id x = tid) (transfers ?st2)) = Some Error"
    by (simp add: applyUpdates_def noUpdates_def)
  show ?thesis
    using z run r e by (intro conjI exI [of _ ?b] exI [of _ ?st2]) simp_all
qed

lemma promoted_eq:
  "promoted = \<lparr>user = Some ''user-1'', currentFolderId = None,
     transfers = [\<lparr>t_id = ''t1'', t_name = ''empty.txt'', t_type = Upload, t_progress = 0,
       t_status = Processing, t_size = 0, t_loaded = 0, t_file = Some emptyFile,
       t_uploadId = Some ''k3x9'', t_chunkIndex = Some 0, t_totalChunks = Some 0,
       t_abortController = None, t_parentId = Some ''root'', t_startTime = Some 5,
       t_speed = None\<rparr>,
      \<lparr>t_id = ''t2'', t_name = ''a.bin'', t_type = Upload, t_progress = 0,
       t_status = Pending, t_size = 3, t_loaded = 0, t_file = Some (demoFile [1, 2, 3]),
       t_uploadId = Some ''p7q2'', t_chunkIndex = Some 0, t_totalChunks = Some 1,
       t_abortController = None, t_parentId = Some ''root'', t_startTime = None,
       t_speed = None\<rparr>],
     transferStatusRef = [''t1'' \<mapsto> Processing, ''t2'' \<mapsto> Pending], mergingRefs = {},
     controllers = 0, aborted = {}\<rparr>"
  by (simp add: promoted_def batch_def queueEffect_def uploadFiles_def pendingTransfer_def
      loggedIn_def initialClient_def emptyFile_def demoFile_def file_size_def orElse_def
      present_def activeCount_def isActive_def MAX_CONCURRENT_UPLOADS_def updateTransfer_def
      applyUpdates_def noUpdates_def totalChunksOf_zero totalChunksOf_one_chunk CHUNK_SIZE_def
      fun_upd_twist)

theorem zero_byte_upload_fails_witness:
  "\<exists>b st'.
     runChain 1 (\<lambda>form k. Failed)
       (\<lambda>b. map_option (\<lambda>(r, srv'). Response r)
              (completeUpload ''id1'' 7 (completeRequest ''user-1'' b)
                 (demoServer 1000 0 Map.empty)))
       6 \<lparr>s_delay = 100, s_transferId = ''t1'', s_chunkIndex = 0, s_retryCount = 0\<rparr> promoted
       = Some ([SentComplete b], st')
     \<and> cb_totalChunks b = 0
     \<and> completeUpload ''id1'' 7 (completeRequest ''user-1'' b) (demoServer 1000 0 Map.empty)
         = Some (respond 400 (ErrorBody ''Missing required fields''),
                 demoServer 1000 0 Map.empty)
     \<and> map_option t_status (find (\<lambda>x. t_id x = ''t1'') (transfers st')) = Some Error"
  by (rule zero_byte_upload_fails [where t = "hd (transfers promoted)" and f = emptyFile
        and fuel = 0, THEN conjunct2, unfolded One_nat_def [symmetric]])
     (simp_all add: promoted_eq emptyFile_def file_size_def totalChunksOf_zero)

section \<open>The bound on active transfers\<close>

lemma t_id_applyUpdates [simp]: "t_id (applyUpdates upd t) = t_id t"
  by (simp add: applyUpdates_def)

lemma t_type_applyUpdates [simp]: "t_type (applyUpdates upd t) = t_type t"
  by (simp add: applyUpdates_def)

lemma transfers_updateTransfer:
  "transfers (updateTransfer tid upd st)
     = map (\<lambda>t. if t_id t = tid then applyUpdates upd t else t) (transfers st)"
  by (simp add: updateTransfer_def)

lemma ids_updateTransfer:
  "map t_id (transfers (updateTransfer tid upd st)) = map t_id (transfers st)"
  by (simp add: transfers_updateTransfer)

lemma count_map_le:
  assumes "\<And>x. x \<in> set xs \<Longrightarrow> P (g x) \<Longrightarrow> P x"
  shows "length (filter P (map g xs)) \<le> length (filter P xs)"
  using assms
proof (induction xs)
  case Nil
  then show ?case by simp
next
  case (Cons x xs)
  then have "length (filter P (map g xs)) \<le> length (filter P xs)" by simp
  moreover have "P (g x) \<Longrightarrow> P x" using Cons.prems by simp
  ultimately show ?case by auto
qed

lemma activeUploads_update_le:
  assumes "\<And>x. x \<in> set (transfers st) \<Longrightarrow> t_id x = tid \<Longrightarrow>
             isActive (applyUpdates upd x) \<Longrightarrow> isActive x"
  shows "activeUploads (updateTransfer tid upd st) \<le> activeUploads st"
proof -
  have "length (filter (\<lambda>t. isActive t \<and> t_type t = Upload)
          (map (\<lambda>t. if t_id t = tid then applyUpdates upd t else t) (transfers st)))
        \<le> length (filter (\<lambda>t. isActive t \<and> t_type t = Upload) (transfers st))"
  proof (rule count_map_le)
    fix x
    assume "x \<in> set (transfers st)"
      and "isActive (if t_id x = tid then applyUpdates upd x else x)
           \<and> t_type (if t_id x = tid then applyUpdates upd x else x) = Upload"
    then show "isActive x \<and> t_type x = Upload"
      using assms [of x] by (cases "t_id x = tid") simp_all
  qed
  then show ?thesis
    by (simp add: activeUploads_def transfers_updateTransfer)
qed

lemma activeUploads_le_activeCount: "activeUploads st \<le> activeCount st"
proof -
  have "length (filter (\<lambda>t. isActive t \<and> t_type t = Upload) xs)
          \<le> length (filter isActive xs)" for xs
    by (induction xs) auto
  then show ?thesis by (simp add: activeUploads_def activeCount_def)
qed

lemma isActive_no_status:
  "u_status upd = None \<Longrightarrow> isActive (applyUpdates upd x) = isActive x"
  by (simp add: isActive_def applyUpdates_def)

lemma not_active_status:
  "u_status upd = Some s \<Longrightarrow> s \<noteq> Processing \<Longrightarrow> s \<noteq> Merging \<Longrightarrow>
   \<not> isActive (applyUpdates upd x)"
  by (simp add: isActive_def applyUpdates_def)

lemma find_unique:
  assumes "distinct (map t_id xs)" and "find (\<lambda>x. t_id x = tid) xs = Some t"
    and "x \<in> set xs" and "t_id x = tid"
  shows "x = t"
proof -
  have "t \<in> set xs" "t_id t = tid"
    using assms(2) by (auto simp add: find_Some_iff)
  then show ?thesis
    using assms(1,3,4) by (metis distinct_map inj_onD)
qed

lemma promote_is_promoteFirst:
  assumes "distinct (map t_id xs)" and "find (\<lambda>t. t_status t = Pending) xs = Some nt"
  shows "map (\<lambda>t. if t_id t = t_id nt
                   then applyUpdates (noUpdates\<lparr>u_status := Some Processing,
                                                 u_startTime := Some now\<rparr>) t
                   else t) xs
         = promoteFirst now xs"
  using assms
proof (induction xs)
  case Nil
  then show ?case by simp
next
  case (Cons x xs)
  show ?case
  proof (cases "t_status x = Pending")
    case True
    then have nt: "nt = x" using Cons.prems(2) by simp
    have "\<And>y. y \<in> set xs \<Longrightarrow> t_id y \<noteq> t_id x"
      using Cons.prems(1) by (auto simp add: image_iff)
    then have "map (\<lambda>t. if t_id t = t_id x
                   then applyUpdates (noUpdates\<lparr>u_status := Some Processing,
                                                 u_startTime := Some now\<rparr>) t
                   else t) xs = xs"
      by (intro map_idI) auto
    then show ?thesis
      using True nt by (simp add: applyUpdates_def noUpdates_def)
  next
    case False
    then have f: "find (\<lambda>t. t_status t = Pending) xs = Some nt"
      using Cons.prems(2) by simp
    then have "nt \<in> set xs" by (auto simp add: find_Some_iff)
    then have "t_id x \<noteq> t_id nt" using Cons.prems(1) by auto
    then show ?thesis
      using False Cons.IH [OF _ f] Cons.prems(1) by simp
  qed
qed

lemma promoteFirst_none:
  "find (\<lambda>t. t_status t = Pending) xs = None \<Longrightarrow> promoteFirst now xs = xs"
  by (induction xs) (auto split: if_splits)

lemma promoteFirst_count:
  "length (filter (\<lambda>t. isActive t \<and> t_type t = Upload) (promoteFirst now xs))
     \<le> Suc (length (filter (\<lambda>t. isActive t \<and> t_type t = Upload) xs))"
  by (induction xs) (auto simp add: isActive_def)

lemma promoteFirst_ids: "map t_id (promoteFirst now xs) = map t_id xs"
  by (induction xs) auto

lemma queueEffect_transfers:
  assumes "distinct (map t_id (transfers st))"
  shows "transfers (fst (queueEffect now st))
         = (if activeCount st < MAX_CONCURRENT_UPLOADS
            then promoteFirst now (transfers st) else transfers st)"
proof (cases "find (\<lambda>t. t_status t = Pending) (transfers st)")
  case None
  then show ?thesis
    by (simp add: queueEffect_def promoteFirst_none)
next
  case (Some nt)
  then show ?thesis
    using promote_is_promoteFirst [OF assms Some, of now]
    by (simp add: queueEffect_def transfers_updateTransfer)
qed

lemma inv_queueEffect:
  assumes "queueInvariant st"
  shows "queueInvariant (fst (queueEffect now st))"
proof -
  have d: "distinct (map t_id (transfers st))"
    using assms by (simp add: queueInvariant_def)
  show ?thesis
  proof (cases "activeCount st < MAX_CONCURRENT_UPLOADS")
    case True
    have "activeUploads (fst (queueEffect now st)) \<le> Suc (activeUploads st)"
      using True promoteFirst_count [of now "transfers st"]
      by (simp add: activeUploads_def queueEffect_transfers [OF d])
    then show ?thesis
      using True d activeUploads_le_activeCount [of st]
      by (simp add: queueInvariant_def queueEffect_transfers [OF d] promoteFirst_ids)
  next
    case False
    then show ?thesis using assms by (simp add: queueEffect_def)
  qed
qed

lemma inv_transfers_cong:
  "transfers st' = transfers st \<Longrightarrow> queueInvariant st' = queueInvariant st"
  by (simp add: queueInvariant_def activeUploads_def)

lemma inv_update_le:
  assumes "queueInvariant st"
    and "\<And>x. x \<in> set (transfers st) \<Longrightarrow> t_id x = tid \<Longrightarrow>
             isActive (applyUpdates upd x) \<Longrightarrow> isActive x"
  shows "queueInvariant (updateTransfer tid upd st)"
  using assms(1) activeUploads_update_le [of st tid upd, OF assms(2)]
  by (simp add: queueInvariant_def ids_updateTransfer)

lemma inv_processUploadChunk:
  assumes "queueInvariant st"
  shows "queueInvariant (fst (processUploadChunk tid ci rc st))"
proof (cases "find (\<lambda>t. t_id t = tid) (transfers st)")
  case None
  then show ?thesis using assms by (simp add: processUploadChunk_def)
next
  case (Some t)
  let ?st = "st\<lparr>mergingRefs := insert tid (mergingRefs st)\<rparr>"
  have i: "queueInvariant ?st"
    using assms by (simp add: inv_transfers_cong [of ?st st])
  have m: "t_status t = Processing \<Longrightarrow>
           queueInvariant (updateTransfer tid
             (noUpdates\<lparr>u_status := Some Merging, u_progress := Some 100\<rparr>) ?st)"
  proof (rule inv_update_le [OF i])
    fix x
    assume "t_status t = Processing" "x \<in> set (transfers ?st)" "t_id x = tid"
    moreover have "distinct (map t_id (transfers st))"
      using assms by (simp add: queueInvariant_def)
    ultimately have "x = t" using find_unique [OF _ Some, of x] by simp
    then show "isActive x" using \<open>t_status t = Processing\<close> by (simp add: isActive_def)
  qed
  have c: "queueInvariant (st\<lparr>controllers := Suc (controllers st)\<rparr>)"
    using assms by (simp add: inv_transfers_cong [of "st\<lparr>controllers := Suc (controllers st)\<rparr>" st])
  show ?thesis
    using Some assms m c
    by (auto simp add: processUploadChunk_def Let_def split: option.splits)
qed

lemma inv_chunkSettled:
  assumes "queueInvariant st"
  shows "queueInvariant (fst (chunkSettled now tid ci rc t outcome st))"
proof -
  have a: "queueInvariant (updateTransfer tid upd st)" if "u_status upd = None" for upd
    using that by (intro inv_update_le [OF assms]) (simp add: isActive_no_status)
  have b: "queueInvariant (updateTransfer tid (noUpdates\<lparr>u_status := Some Error\<rparr>) st)"
    by (intro inv_update_le [OF assms]) (simp add: not_active_status)
  show ?thesis
    using assms b by (simp add: chunkSettled_def Let_def a noUpdates_def)
qed

lemma inv_completeSettled:
  assumes "queueInvariant st"
  shows "queueInvariant (completeSettled tid t outcome st)"
proof -
  have b: "queueInvariant (updateTransfer tid upd st)"
    if "u_status upd = Some Error \<or> u_status upd = Some Completed" for upd
    using that by (intro inv_update_le [OF assms]) (auto simp add: not_active_status)
  have "queueInvariant (st'\<lparr>mergingRefs := mergingRefs st' - {tid}\<rparr>) = queueInvariant st'" for st'
    by (rule inv_transfers_cong) simp
  then show ?thesis
    by (auto simp add: completeSettled_def Let_def noUpdates_def intro!: b
        split: fetch_outcome.splits)
qed

lemma inv_filter:
  assumes "queueInvariant st"
  shows "queueInvariant (st\<lparr>transfers := filter Q (transfers st)\<rparr>)"
proof -
  have "length (filter P (filter Q xs)) \<le> length (filter P xs)"
    for P :: "transfer_item \<Rightarrow> bool" and xs
    by (induction xs) auto
  then have "length (filter (\<lambda>t. isActive t \<and> t_type t = Upload) (filter Q (transfers st)))
               \<le> length (filter (\<lambda>t. isActive t \<and> t_type t = Upload) (transfers st))" .
  then show ?thesis
    using assms by (simp add: queueInvariant_def activeUploads_def distinct_map_filter)
qed

lemma inv_uploadFiles:
  assumes "queueInvariant st" and "freshIds items st"
  shows "queueInvariant (uploadFiles items canUpload st)"
proof -
  have ids: "map (\<lambda>x. t_id (pendingTransfer st x)) items = map i_transferId items"
    by (simp add: pendingTransfer_def)
  have act: "filter (\<lambda>t. isActive t \<and> t_type t = Upload) (map (pendingTransfer st) items) = []"
    by (simp add: filter_empty_conv pendingTransfer_def isActive_def)
  have "set (map i_transferId items) \<inter> set (map t_id (transfers st)) = {}"
    using assms(2) by (auto simp add: freshIds_def list_all_iff)
  then have "distinct (map t_id (transfers st) @ map i_transferId items)"
    using assms by (auto simp add: queueInvariant_def freshIds_def)
  then show ?thesis
    using assms(1) act
    by (simp add: uploadFiles_def queueInvariant_def activeUploads_def comp_def ids)
qed

lemma inv_downloadFile:
  assumes "queueInvariant st" and "tid \<notin> set (map t_id (transfers st))"
  shows "queueInvariant (downloadFile n f tid st)"
  using assms by (simp add: downloadFile_def queueInvariant_def activeUploads_def)

lemma inv_download_continues:
  assumes "queueInvariant st"
  shows "queueInvariant (downloadResponded totalSize tid st)"
    and "queueInvariant (downloadProgress now loaded totalSize tid st)"
    and "queueInvariant (downloadCompleted tid st)"
    and "queueInvariant (downloadFailed wasAborted tid st)"
proof -
  have a: "queueInvariant (updateTransfer tid upd st)" if "u_status upd = None" for upd
    using that by (intro inv_update_le [OF assms]) (simp add: isActive_no_status)
  have b: "queueInvariant (updateTransfer tid upd st)"
    if "u_status upd = Some Error \<or> u_status upd = Some Completed" for upd
    using that by (intro inv_update_le [OF assms]) (auto simp add: not_active_status)
  show "queueInvariant (downloadResponded totalSize tid st)"
    using assms by (simp add: downloadResponded_def a noUpdates_def)
  show "queueInvariant (downloadProgress now loaded totalSize tid st)"
    by (simp add: downloadProgress_def Let_def a noUpdates_def)
  show "queueInvariant (downloadCompleted tid st)"
    by (simp add: downloadCompleted_def b noUpdates_def)
  show "queueInvariant (downloadFailed wasAborted tid st)"
    using assms by (simp add: downloadFailed_def b noUpdates_def)
qed

lemma queueReachable_invariant: "queueReachable st \<Longrightarrow> queueInvariant st"
proof (induction rule: queueReachable.induct)
  case (qr_init u)
  then show ?case
    by (simp add: queueInvariant_def initialClient_def activeUploads_def)
next
  case (qr_uploadFiles st items canUpload)
  then show ?case by (simp add: inv_uploadFiles)
next
  case (qr_queueEffect st now)
  then show ?case by (simp add: inv_queueEffect)
next
  case (qr_processUploadChunk st transferId chunkIndex retryCount)
  then show ?case by (simp add: inv_processUploadChunk)
next
  case (qr_chunkSettled st now transferId chunkIndex retryCount transfer outcome)
  then show ?case by (simp add: inv_chunkSettled)
next
  case (qr_completeSettled st transferId transfer outcome)
  then show ?case by (simp add: inv_completeSettled)
next
  case (qr_downloadFile st transferId fileName isFolder)
  then show ?case by (simp add: inv_downloadFile)
next
  case (qr_downloadResponded st totalSize transferId)
  then show ?case by (simp add: inv_download_continues)
next
  case (qr_downloadProgress st now loaded totalSize transferId)
  then show ?case by (simp add: inv_download_continues)
next
  case (qr_downloadCompleted st transferId)
  then show ?case by (simp add: inv_download_continues)
next
  case (qr_downloadFailed st wasAborted transferId)
  then show ?case by (simp add: inv_download_continues)
next
  case (qr_navigate st folderId)
  then show ?case by (simp add: inv_transfers_cong [of "st\<lparr>currentFolderId := folderId\<rparr>" st])
next
  case (qr_cancelTransfer st transferId)
  have "queueInvariant (cancelTransfer transferId st)
          = queueInvariant (st\<lparr>transfers := filter (\<lambda>t. t_id t \<noteq> transferId) (transfers st)\<rparr>)"
    by (rule inv_transfers_cong) (simp add: cancelTransfer_def)
  then show ?case using qr_cancelTransfer by (simp add: inv_filter)
next
  case (qr_clearCompletedTransfers st type)
  then show ?case by (simp add: clearCompletedTransfers_def inv_filter)
qed

lemma downloadFile_active:
  "user st \<noteq> None \<Longrightarrow>
   activeCount (downloadFile n f tid st) = Suc (activeCount st)
   \<and> user (downloadFile n f tid st) = user st"
  by (simp add: downloadFile_def activeCount_def isActive_def)

lemma directDownloads_active:
  "user st \<noteq> None \<Longrightarrow>
   activeCount (foldl (\<lambda>st tid. downloadFile n f tid st) st ids) = activeCount st + length ids"
proof (induction ids arbitrary: st)
  case Nil
  then show ?case by simp
next
  case (Cons a ids)
  then show ?case using downloadFile_active [of st n f a] by simp
qed

lemma downloadFile_ids:
  "user st \<noteq> None \<Longrightarrow>
   map t_id (transfers (downloadFile n f tid st)) = map t_id (transfers st) @ [tid]"
  by (simp add: downloadFile_def)

lemma directDownloads_reachable:
  "queueReachable st \<Longrightarrow> user st \<noteq> None \<Longrightarrow> distinct (map t_id (transfers st) @ ids) \<Longrightarrow>
   queueReachable (foldl (\<lambda>st tid. downloadFile n f tid st) st ids)"
proof (induction ids arbitrary: st)
  case Nil
  then show ?case by simp
next
  case (Cons a ids)
  have r: "queueReachable (downloadFile n f a st)"
    using Cons.prems by (intro qr_downloadFile) auto
  have u: "user (downloadFile n f a st) \<noteq> None"
    using Cons.prems(2) by (simp add: downloadFile_active)
  have d: "distinct (map t_id (transfers (downloadFile n f a st)) @ ids)"
    using Cons.prems(2,3) by (simp add: downloadFile_ids)
  show ?case
    using Cons.IH [OF r u d] by simp
qed

text \<open>
  C4, as stated, fails: \<^verbatim>\<open>downloadFile\<close> admits its transfer in \<^verbatim>\<open>processing\<close> status,
  never in \<^verbatim>\<open>pending\<close>, and without looking at the number of active transfers, so six
  downloads started one after the other give a reachable state with six transfers in
  \<^verbatim>\<open>processing\<close> status.
\<close>

theorem direct_admission_counterexample:
  "queueReachable (directDownloads [''d1'', ''d2'', ''d3'', ''d4'', ''d5'', ''d6''])
   \<and> activeCount (directDownloads [''d1'', ''d2'', ''d3'', ''d4'', ''d5'', ''d6'']) = 6
   \<and> \<not> activeCount (directDownloads [''d1'', ''d2'', ''d3'', ''d4'', ''d5'', ''d6''])
         \<le> MAX_CONCURRENT_UPLOADS
   \<and> map t_status (transfers (directDownloads [''d1''])) = [Processing]"
proof -
  have u: "user loggedIn \<noteq> None" by (simp add: loggedIn_def initialClient_def)
  have a: "activeCount loggedIn = 0"
    by (simp add: loggedIn_def initialClient_def activeCount_def)
  have q: "queueReachable loggedIn"
    unfolding loggedIn_def by (rule qr_init)
  have d: "distinct (map t_id (transfers loggedIn) @ [''d1'', ''d2'', ''d3'', ''d4'', ''d5'', ''d6''])"
    by (simp add: loggedIn_def initialClient_def)
  have "queueReachable (directDownloads [''d1'', ''d2'', ''d3'', ''d4'', ''d5'', ''d6''])"
    unfolding directDownloads_def by (rule directDownloads_reachable [OF q u d])
  moreover have "activeCount (directDownloads [''d1'', ''d2'', ''d3'', ''d4'', ''d5'', ''d6''])
          = activeCount loggedIn + length [''d1'', ''d2'', ''d3'', ''d4'', ''d5'', ''d6'']"
    unfolding directDownloads_def by (rule directDownloads_active [OF u])
  moreover have "map t_status (transfers (directDownloads [''d1''])) = [Processing]"
    by (simp add: directDownloads_def downloadFile_def loggedIn_def initialClient_def)
  ultimately show ?thesis by (simp add: MAX_CONCURRENT_UPLOADS_def a)
qed

lemma uploadFiles_appends:
  "user st \<noteq> None \<Longrightarrow>
   transfers (uploadFiles items True st) = transfers st @ map (pendingTransfer st) items"
  by (cases "items = []") (simp_all add: uploadFiles_def)

lemma pendingTransfer_admitted:
  "map (\<lambda>t. (t_id t, t_type t, t_status t)) (map (pendingTransfer st) items)
     = map (\<lambda>item. (i_transferId item, Upload, Pending)) items"
  by (simp add: pendingTransfer_def)

lemma downloadFile_appends:
  "user st \<noteq> None \<Longrightarrow>
   \<exists>d. transfers (downloadFile fileName isFolder transferId st) = transfers st @ [d]
       \<and> t_id d = transferId \<and> t_type d = Download \<and> t_status d = Processing"
  by (simp add: downloadFile_def)

text \<open>
  C4, amended. Take the states that the client reaches through \<^verbatim>\<open>uploadFiles\<close>,
  \<^verbatim>\<open>downloadFile\<close>, the queue effect, the continuations of the transfers, navigation,
  cancelling and clearing, where the random identifier of each new transfer differs from
  those in the list and from the others of its batch. In every such state at most 5
  uploads are in \<^verbatim>\<open>processing\<close> or \<^verbatim>\<open>merging\<close> status. For a logged-in user whose batch
  passed the pre-flight check, \<^verbatim>\<open>uploadFiles\<close> appends one upload per file to the list, in
  the order of the batch, each in \<^verbatim>\<open>pending\<close> status. A run of the queue effect promotes
  the earliest pending transfer of the list, and only that one, when fewer than 5
  transfers (uploads and downloads) are in \<^verbatim>\<open>processing\<close> or \<^verbatim>\<open>merging\<close> status, and
  changes nothing otherwise. A download is appended in \<^verbatim>\<open>processing\<close> status at once.
\<close>

theorem queue_admission_bound:
  assumes "queueReachable st"
  shows "activeUploads st \<le> MAX_CONCURRENT_UPLOADS
       \<and> (user st \<noteq> None \<longrightarrow>
            transfers (uploadFiles items True st) = transfers st @ map (pendingTransfer st) items)
       \<and> map (\<lambda>t. (t_id t, t_type t, t_status t)) (map (pendingTransfer st) items)
            = map (\<lambda>item. (i_transferId item, Upload, Pending)) items
       \<and> transfers (fst (queueEffect now st))
           = (if activeCount st < MAX_CONCURRENT_UPLOADS
              then promoteFirst now (transfers st) else transfers st)
       \<and> (user st \<noteq> None \<longrightarrow>
            (\<exists>d. transfers (downloadFile fileName isFolder transferId st) = transfers st @ [d]
                 \<and> t_id d = transferId \<and> t_type d = Download \<and> t_status d = Processing))"
proof -
  have i: "queueInvariant st"
    using assms by (rule queueReachable_invariant)
  then have d: "distinct (map t_id (transfers st))"
    by (simp add: queueInvariant_def)
  have b: "activeUploads st \<le> MAX_CONCURRENT_UPLOADS"
    using i by (simp add: queueInvariant_def)
  show ?thesis
    using b uploadFiles_appends [of st items] pendingTransfer_admitted [of st items]
      queueEffect_transfers [OF d, of now] downloadFile_appends [of st fileName isFolder transferId]
    by blast
qed

lemma sixQueued_reachable: "queueReachable sixQueued"
  unfolding sixQueued_def loggedIn_def
  by (intro queueReachable.intros)
     (simp_all add: freshIds_def sixItems_def initialClient_def downloadFile_def)

lemma sixQueued_status:
  "map (\<lambda>t. (t_id t, t_type t, t_status t)) (transfers sixQueued)
     = [(''d1'', Download, Processing), (''t1'', Upload, Processing),
        (''t2'', Upload, Processing), (''t3'', Upload, Processing),
        (''t4'', Upload, Processing), (''t5'', Upload, Pending), (''t6'', Upload, Pending)]"
  by (simp add: sixQueued_def sixItems_def queueEffect_def uploadFiles_def pendingTransfer_def
      downloadFile_def loggedIn_def initialClient_def activeCount_def isActive_def
      MAX_CONCURRENT_UPLOADS_def updateTransfer_def applyUpdates_def noUpdates_def orElse_def
      present_def)

theorem queue_admission_bound_witness:
  "activeUploads sixQueued \<le> MAX_CONCURRENT_UPLOADS
   \<and> map (\<lambda>t. (t_id t, t_type t, t_status t)) (transfers sixQueued)
       = [(''d1'', Download, Processing), (''t1'', Upload, Processing),
          (''t2'', Upload, Processing), (''t3'', Upload, Processing),
          (''t4'', Upload, Processing), (''t5'', Upload, Pending), (''t6'', Upload, Pending)]"
  using queue_admission_bound [OF sixQueued_reachable, THEN conjunct1] sixQueued_status
  by simp

end
